theory Spec2Isabelle
  imports Main "HOL-Library.Sublist"
begin

section \<open>The feed endpoint: packages/bsky/src/api/app/bsky/feed/getFeed.ts\<close>

subsection \<open>Values of the host language\<close>

text \<open>\<open>Array.prototype.join(sep)\<close> on an array of strings.\<close>

fun join :: "string \<Rightarrow> string list \<Rightarrow> string" where
  "join sep [] = []"
| "join sep [x] = x"
| "join sep (x # y # ys) = x @ sep @ join sep (y # ys)"

text \<open>
  \<open>Array.prototype.slice(0, n)\<close>: a negative end counts from the end of the array,
  and the result is never longer than the array.
\<close>

definition slice0 :: "'a list \<Rightarrow> int \<Rightarrow> 'a list" where
  "slice0 xs n = (if n < 0 then take (nat (int (length xs) + n)) xs else take (nat n) xs)"

text \<open>
  Modelled from the spec: \<open>noUndefinedVals\<close> and \<open>mapDefined\<close>, two helpers of the package
  \<open>@atproto/common\<close>, which is outside the sources embedded here. \<open>noUndefinedVals\<close>
  removes the properties whose value is \<open>undefined\<close> and keeps the others as they are, so
  that only the headers named in the literal are forwarded; \<open>mapDefined\<close> maps a function
  over an array and leaves out the results that are \<open>undefined\<close>, keeping the order, so
  that an item without view is dropped from the feed. An object literal whose property
  values may be \<open>undefined\<close> is a list of keys with optional values, in the order written.
\<close>

definition noUndefinedVals :: "(string \<times> 'a option) list \<Rightarrow> (string \<rightharpoonup> 'a)" where
  "noUndefinedVals obj = map_of (List.map_filter (\<lambda>(k, v). map_option (Pair k) v) obj)"

definition mapDefined :: "'a list \<Rightarrow> ('a \<Rightarrow> 'b option) \<Rightarrow> 'b list" where
  "mapDefined xs f = List.map_filter f xs"

subsection \<open>Data\<close>

text \<open>The query parameters of \<open>app.bsky.feed.getFeed\<close>.\<close>

record QueryParams =
  feed :: string
  limit :: int
  cursor :: "string option"

text \<open>
  A value of an incoming header (\<open>IncomingHttpHeaders\<close>): one string or an array of strings.
\<close>

datatype HeaderValue = Single string | Multi "string list"

type_synonym IncomingHttpHeaders = "string \<rightharpoonup> HeaderValue"

text \<open>
  One entry of the upstream skeleton: the post's uri, an optional reason and an optional
  context string. Of the reason only its type tag and its \<open>repost\<close> property are read;
  \<open>reason_repost\<close> is \<open>Some s\<close> exactly when \<open>typeof reason.repost === 'string'\<close>.
\<close>

record SkeletonReason =
  reason_type :: string
  reason_repost :: "string option"

record SkeletonFeedPost =
  skel_post :: string
  skel_reason :: "SkeletonReason option"
  skel_feedContext :: "string option"

text \<open>
  The body of the feed generator's answer: the ranked entries, an optional cursor, and
  whatever further properties the generator sent (\<open>skel_more\<close>, values of an opaque
  type).
\<close>

record 'v SkeletonOutput =
  skel_feed :: "SkeletonFeedPost list"
  skel_cursor :: "string option"
  skel_more :: "string \<rightharpoonup> 'v"

record 'v SkeletonResponse =
  data :: "'v SkeletonOutput"
  headers :: "string \<rightharpoonup> string"

text \<open>\<open>AlgoResponseItem\<close>: \<open>post: {uri}\<close>, \<open>repost?: {uri}\<close>, \<open>feedContext?\<close>.\<close>

record AlgoResponseItem =
  post :: string
  repost :: "string option"
  feedContext :: "string option"

text \<open>
  \<open>AlgoResponse\<close>. The object is built by a spread, so besides its three declared
  properties it carries the generator's further properties (\<open>algo_more\<close>).
\<close>

record 'v AlgoResponse =
  feedItems :: "AlgoResponseItem list"
  resHeaders :: "(string \<rightharpoonup> string) option"
  algo_cursor :: "string option"
  algo_more :: "string \<rightharpoonup> 'v"

text \<open>
  The state handed from stage to stage (\<open>type Skeleton\<close>). A timer is a value of an
  opaque type \<open>'t\<close>: the clock is not modelled.
\<close>

record ('v, 't) Skeleton =
  items :: "AlgoResponseItem list"
  passthrough :: "string \<rightharpoonup> 'v"
  sk_resHeaders :: "(string \<rightharpoonup> string) option"
  sk_cursor :: "string option"
  timerSkele :: 't
  timerHydr :: 't

text \<open>
  What can be thrown. \<open>UnknownFeedError\<close> and \<open>XRPCError\<close> are the client library's
  errors (the first a subclass of the second, tested first), \<open>ConnectError\<close> is the data
  plane's error with its code, \<open>InvalidRequestError\<close> and \<open>UpstreamFailureError\<close> are the
  server's errors with a message and an optional custom error name, and \<open>OtherError\<close> is
  any other thrown value.
\<close>

datatype ResponseType = Unknown | InvalidResponse | OtherStatus nat

datatype Code = NotFound | OtherCode nat

datatype 'x thrown =
    UnknownFeedError ResponseType string
  | XRPCError ResponseType string
  | ConnectError Code
  | InvalidRequestError string "string option"
  | UpstreamFailureError string "string option"
  | OtherError 'x

text \<open>
  The collaborators of \<open>skeletonFromFeedGen\<close>, all defined in other modules, taken as
  parameters:
  \<^item> \<open>getFeedGens feed\<close> is \<open>(await ctx.hydrator.feed.getFeedGens([feed], true)).get(feed)?.record.did\<close>;
  \<^item> \<open>getIdentityByDid did\<close> is the data plane's lookup, returning the identity's services;
  \<^item> \<open>getServiceEndpoint services id type\<close> is \<open>getServiceEndpoint(unpackIdentityServices(services), {id, type})\<close>;
  \<^item> \<open>getFeedSkeleton endpoint params headers\<close> is the outbound call of the agent created
    for \<open>endpoint\<close>;
  \<^item> \<open>hydrateFeedItems\<close> is the hydrator.
  Each awaited call either throws or returns.
\<close>

record ('x, 's, 'v, 'h) HydrateCtx =
  getFeedGens :: "string \<Rightarrow> 'x thrown + string option"
  getIdentityByDid :: "string \<Rightarrow> 'x thrown + 's"
  getServiceEndpoint :: "'s \<Rightarrow> string \<Rightarrow> string \<Rightarrow> string option"
  getFeedSkeleton :: "string \<Rightarrow> QueryParams \<Rightarrow> (string \<rightharpoonup> HeaderValue) \<Rightarrow> 'x thrown + 'v SkeletonResponse"
  hydrateFeedItems :: "AlgoResponseItem list \<Rightarrow> 'x thrown + 'h"

text \<open>
  \<open>ctx.views\<close>, taken as parameters as well: the five flags of an item and its view (or
  \<open>undefined\<close>), both computed from the hydration state alone; and the function that
  renders the timing header.
\<close>

record BlocksAndMutes =
  authorBlocked :: bool
  authorMuted :: bool
  originatorBlocked :: bool
  originatorMuted :: bool
  ancestorAuthorBlocked :: bool

record ('h, 'p, 't) Views =
  feedItemBlocksAndMutes :: "AlgoResponseItem \<Rightarrow> 'h \<Rightarrow> BlocksAndMutes"
  feedViewPost :: "AlgoResponseItem \<Rightarrow> 'h \<Rightarrow> 'p option"
  serverTimingHeader :: "'t list \<Rightarrow> string"

text \<open>
  The response. Its body is an object literal closed by a spread of the passthrough
  properties, so it is a map from property names to values of three kinds.
\<close>

datatype ('p, 'v) BodyValue =
    Feed "('p \<times> string option) list"
  | Cursor "string option"
  | Passthrough 'v

record ('p, 'v) Output =
  out_headers :: "string \<rightharpoonup> string"
  body :: "string \<rightharpoonup> ('p, 'v) BodyValue"

subsection \<open>skeletonFromFeedGen\<close>

text \<open>The headers of the outbound call (lines 194 to 200).\<close>

definition forwardedHeaders :: "IncomingHttpHeaders \<Rightarrow> (string \<rightharpoonup> HeaderValue)" where
  "forwardedHeaders hs =
     noUndefinedVals
       [(''authorization'', hs ''authorization''),
        (''accept-language'', hs ''accept-language''),
        (''x-bsky-topics'',
           (case hs ''x-bsky-topics'' of
              Some (Multi xs) \<Rightarrow> Some (Single (join '','' xs))
            | v \<Rightarrow> v))]"

text \<open>The \<open>catch\<close> block around the outbound call (lines 209 to 225).\<close>

fun catchSkeletonError :: "'x thrown \<Rightarrow> 'x thrown" where
  "catchSkeletonError (UnknownFeedError st msg) = InvalidRequestError msg (Some ''UnknownFeed'')"
| "catchSkeletonError (XRPCError st msg) =
     (if st = Unknown then UpstreamFailureError ''feed unavailable'' None
      else if st = InvalidResponse then
        UpstreamFailureError ''feed provided an invalid response'' (Some ''InvalidFeedResponse'')
      else XRPCError st msg)"
| "catchSkeletonError err = err"

text \<open>The mapping of the upstream entries (lines 228 to 235).\<close>

definition toFeedItem :: "SkeletonFeedPost \<Rightarrow> AlgoResponseItem" where
  "toFeedItem item =
     \<lparr> post = skel_post item,
       repost = (case skel_reason item of None \<Rightarrow> None | Some r \<Rightarrow> reason_repost r),
       feedContext = skel_feedContext item \<rparr>"

text \<open>
  The \<open>try\<close> block and what follows it: the answer's body, the \<open>content-language\<close>
  header when it is a non-empty string, and the object
  \<open>{ ...skele, resHeaders, feedItems }\<close> where \<open>skele\<close> is the body without \<open>feed\<close>.
  The cursor of \<open>skele\<close> has its own field, as have \<open>resHeaders\<close> and \<open>feedItems\<close>, which
  the literal writes last; the further properties are those of the body other than
  \<open>feed\<close>.
\<close>

definition fromResponse :: "'v SkeletonResponse \<Rightarrow> 'v AlgoResponse" where
  "fromResponse result =
     (let skele = data result;
          rh =
            (case headers result ''content-language'' of
               None \<Rightarrow> None
             | Some cl \<Rightarrow>
                 if cl \<noteq> [] then Some [''content-language'' \<mapsto> cl] else None)
      in \<lparr> feedItems = map toFeedItem (skel_feed skele),
           resHeaders = rh,
           algo_cursor = skel_cursor skele,
           algo_more = skel_more skele |` (- {''feed''}) \<rparr>)"

definition skeletonFromFeedGen ::
  "('x, 's, 'v, 'h) HydrateCtx \<Rightarrow> QueryParams \<Rightarrow> IncomingHttpHeaders \<Rightarrow> 'x thrown + 'v AlgoResponse"
where
  "skeletonFromFeedGen ctx params hs =
     (case getFeedGens ctx (feed params) of
        Inl err \<Rightarrow> Inl err
      | Inr feedDid \<Rightarrow>
          (case feedDid of
             None \<Rightarrow> Inl (InvalidRequestError ''could not find feed'' None)
           | Some did \<Rightarrow>
               if did = [] then Inl (InvalidRequestError ''could not find feed'' None)
               else
                 (case getIdentityByDid ctx did of
                    Inl err \<Rightarrow>
                      (if err = ConnectError NotFound
                       then Inl (InvalidRequestError (''could not resolve identity: '' @ did) None)
                       else Inl err)
                  | Inr services \<Rightarrow>
                      (case getServiceEndpoint ctx services ''bsky_fg'' ''BskyFeedGenerator'' of
                         None \<Rightarrow>
                           Inl (InvalidRequestError
                             (''invalid feed generator service details in did document: '' @ did) None)
                       | Some fgEndpoint \<Rightarrow>
                           if fgEndpoint = [] then
                             Inl (InvalidRequestError
                               (''invalid feed generator service details in did document: '' @ did) None)
                           else
                             (case getFeedSkeleton ctx fgEndpoint
                                     \<lparr> feed = feed params, limit = limit params, cursor = cursor params \<rparr>
                                     (forwardedHeaders hs) of
                                Inl err \<Rightarrow> Inl (catchSkeletonError err)
                              | Inr result \<Rightarrow> Inr (fromResponse result))))))"

subsection \<open>The four stages\<close>

text \<open>
  \<open>skeleton\<close>: the two timers are the readings \<open>timerSkele.stop()\<close> and
  \<open>new ServerTimer('hydr').start()\<close>. The rest pattern \<open>...passthrough\<close> takes every
  property but \<open>feedItems\<close>, \<open>cursor\<close> and \<open>resHeaders\<close>.
\<close>

definition skeleton ::
  "('x, 's, 'v, 'h) HydrateCtx \<Rightarrow> QueryParams \<Rightarrow> IncomingHttpHeaders \<Rightarrow> 't \<Rightarrow> 't
     \<Rightarrow> 'x thrown + ('v, 't) Skeleton"
where
  "skeleton ctx params hs tSkele tHydr =
     (case skeletonFromFeedGen ctx params hs of
        Inl err \<Rightarrow> Inl err
      | Inr algo \<Rightarrow>
          Inr \<lparr> items = feedItems algo,
                passthrough = algo_more algo |` (- {''feedItems'', ''cursor'', ''resHeaders''}),
                sk_resHeaders = resHeaders algo,
                sk_cursor = algo_cursor algo,
                timerSkele = tSkele,
                timerHydr = tHydr \<rparr>)"

text \<open>\<open>hydration\<close>: stores the stopped timer in the skeleton and returns the hydration state.\<close>

definition hydration ::
  "('x, 's, 'v, 'h) HydrateCtx \<Rightarrow> ('v, 't) Skeleton \<Rightarrow> 't \<Rightarrow> 'x thrown + (('v, 't) Skeleton \<times> 'h)"
where
  "hydration ctx sk tStop =
     (case hydrateFeedItems ctx (items sk) of
        Inl err \<Rightarrow> Inl err
      | Inr h \<Rightarrow> Inr (sk\<lparr>timerHydr := tStop\<rparr>, h))"

text \<open>\<open>noBlocksOrMutes\<close>: replaces \<open>skeleton.items\<close> by the items that pass the filter.\<close>

definition noBlocksOrMutes ::
  "('h, 'p, 't) Views \<Rightarrow> ('v, 't) Skeleton \<Rightarrow> 'h \<Rightarrow> ('v, 't) Skeleton"
where
  "noBlocksOrMutes views sk h =
     sk\<lparr>items :=
          filter
            (\<lambda>item.
               let bam = feedItemBlocksAndMutes views item h
               in \<not> authorBlocked bam \<and> \<not> authorMuted bam \<and> \<not> originatorBlocked bam
                  \<and> \<not> originatorMuted bam \<and> \<not> ancestorAuthorBlocked bam)
            (items sk)\<rparr>"

text \<open>
  \<open>presentation\<close>. In the headers \<open>server-timing\<close> is written after the spread of
  \<open>resHeaders\<close>; in the body the passthrough properties are spread after \<open>feed\<close> and
  \<open>cursor\<close>, so a passthrough property of the same name would win.
\<close>

definition presentation ::
  "('h, 'p, 't) Views \<Rightarrow> QueryParams \<Rightarrow> ('v, 't) Skeleton \<Rightarrow> 'h \<Rightarrow> ('p, 'v) Output"
where
  "presentation views params sk h =
     (let feedPage =
            slice0
              (mapDefined (items sk)
                 (\<lambda>item. case feedViewPost views item h of
                            None \<Rightarrow> None
                          | Some view \<Rightarrow> Some (view, feedContext item)))
              (limit params)
      in \<lparr> out_headers =
             (case sk_resHeaders sk of None \<Rightarrow> Map.empty | Some rh \<Rightarrow> rh)
               (''server-timing'' \<mapsto> serverTimingHeader views [timerSkele sk, timerHydr sk]),
           body =
             [''feed'' \<mapsto> Feed feedPage, ''cursor'' \<mapsto> Cursor (sk_cursor sk)]
               ++ (\<lambda>k. map_option Passthrough (passthrough sk k)) \<rparr>)"

section \<open>The feed service: packages/pds/src/app-view/services/feed/index.ts\<close>

subsection \<open>Text and UTF-8\<close>

text \<open>
  Identifiers (dids, uris, cids, handles) are \<open>string\<close>s. A display name is text in which
  characters beyond ASCII matter, so it is the list of the code points of the JavaScript
  string: a surrogate pair is one code point above \<open>0xFFFF\<close>, an unpaired surrogate is a
  code point in \<open>0xD800..0xDFFF\<close>. Every code point of a string is at most \<open>0x10FFFF\<close>.
\<close>

type_synonym ustring = "nat list"

definition wf_text :: "ustring \<Rightarrow> bool" where
  "wf_text s = list_all (\<lambda>c. c \<le> 0x10FFFF) s"

text \<open>
  Modelled from the spec: \<open>TextEncoder\<close> and \<open>TextDecoder\<close>, which belong to the platform,
  not to the repository. The two follow the Encoding standard, on which the
  specification's "UTF-8-safe truncation" relies. \<open>encode\<close> replaces an unpaired surrogate by \<open>U+FFFD\<close>
  and writes each code point in one to four bytes. \<open>decode\<close>, not fatal, is the
  standard's UTF-8 decoder: its state is the code point collected so far, the number of
  bytes still needed and the bounds of the next byte; an ill-formed or unfinished
  sequence gives one \<open>U+FFFD\<close>, and the byte that ended an ill-formed sequence is read
  again. A byte order mark at the start of the output is left out (\<open>ignoreBOM\<close> is false).
\<close>

definition scalar :: "nat \<Rightarrow> nat" where
  "scalar c = (if 0xD800 \<le> c \<and> c \<le> 0xDFFF then 0xFFFD else c)"

definition utf8_bytes :: "nat \<Rightarrow> nat list" where
  "utf8_bytes c =
     (if c < 0x80 then [c]
      else if c < 0x800 then [0xC0 + c div 64, 0x80 + c mod 64]
      else if c < 0x10000 then [0xE0 + c div 4096, 0x80 + (c div 64) mod 64, 0x80 + c mod 64]
      else [0xF0 + c div 262144, 0x80 + (c div 4096) mod 64, 0x80 + (c div 64) mod 64,
            0x80 + c mod 64])"

definition encode :: "ustring \<Rightarrow> nat list" where
  "encode s = concat (map (\<lambda>c. utf8_bytes (scalar c)) s)"

function decoder :: "nat \<Rightarrow> nat \<Rightarrow> nat \<Rightarrow> nat \<Rightarrow> nat list \<Rightarrow> ustring" where
  "decoder cp needed lo hi [] = (if needed \<noteq> 0 then [0xFFFD] else [])"
| "decoder cp needed lo hi (b # bs) =
     (if needed = 0 then
        (if b \<le> 0x7F then b # decoder 0 0 0x80 0xBF bs
         else if 0xC2 \<le> b \<and> b \<le> 0xDF then decoder (b mod 32) 1 0x80 0xBF bs
         else if 0xE0 \<le> b \<and> b \<le> 0xEF then
           decoder (b mod 16) 2 (if b = 0xE0 then 0xA0 else 0x80) (if b = 0xED then 0x9F else 0xBF) bs
         else if 0xF0 \<le> b \<and> b \<le> 0xF4 then
           decoder (b mod 8) 3 (if b = 0xF0 then 0x90 else 0x80) (if b = 0xF4 then 0x8F else 0xBF) bs
         else 0xFFFD # decoder 0 0 0x80 0xBF bs)
      else if \<not> (lo \<le> b \<and> b \<le> hi) then 0xFFFD # decoder 0 0 0x80 0xBF (b # bs)
      else if needed = 1 then (cp * 64 + b mod 64) # decoder 0 0 0x80 0xBF bs
      else decoder (cp * 64 + b mod 64) (needed - 1) 0x80 0xBF bs)"
  by pat_completeness auto
termination
  by (relation "measure (\<lambda>(cp, needed, lo, hi, bs). 2 * length bs + (if needed = 0 then 0 else 1))")
    auto

text \<open>The decoder in its initial state.\<close>

abbreviation decoder0 :: "nat list \<Rightarrow> ustring" where
  "decoder0 \<equiv> decoder 0 0 0x80 0xBF"

text \<open>A Unicode scalar value: a code point that is not a surrogate.\<close>

definition scalarValue :: "nat \<Rightarrow> bool" where
  "scalarValue c = (c \<le> 0x10FFFF \<and> \<not> (0xD800 \<le> c \<and> c \<le> 0xDFFF))"

definition stripBOM :: "ustring \<Rightarrow> ustring" where
  "stripBOM s = (case s of [] \<Rightarrow> [] | c # cs \<Rightarrow> if c = 0xFEFF then cs else c # cs)"

definition decode :: "nat list \<Rightarrow> ustring" where
  "decode bytes = stripBOM (decoder0 bytes)"

text \<open>
  \<open>replace\<close> with the regular expression \<open>U+FFFD\<close> followed by the end of the input: a
  replacement character at the very end is removed, once.
\<close>

definition replaceTrailingFFFD :: "ustring \<Rightarrow> ustring" where
  "replaceTrailingFFFD s = (if s \<noteq> [] \<and> last s = 0xFFFD then butlast s else s)"

text \<open>
  \<open>truncateUtf8\<close> (lines 531 to 541). \<open>None\<close> is \<open>null\<close> or \<open>undefined\<close>; like the empty
  string it is returned as it is.
\<close>

definition truncateUtf8 :: "ustring option \<Rightarrow> nat \<Rightarrow> ustring option" where
  "truncateUtf8 str len =
     (case str of
        None \<Rightarrow> None
      | Some s \<Rightarrow>
          if s = [] then Some s
          else
            (let utf8 = encode s
             in if length utf8 > len
                then Some (replaceTrailingFFFD (decode (take len utf8)))
                else Some s))"

text \<open>A string or text used as a condition, and \<open>x || undefined\<close>.\<close>

fun truthy :: "'a list option \<Rightarrow> bool" where
  "truthy None = False"
| "truthy (Some s) = (s \<noteq> [])"

definition orUndefined :: "'a list option \<Rightarrow> 'a list option" where
  "orUndefined x = (if truthy x then x else None)"

subsection \<open>The database\<close>

text \<open>
  The tables the service reads, each a list of rows with the columns that the queries
  name (a column is written with the table's prefix). \<open>None\<close> is SQL's \<open>null\<close>.
\<close>

record did_handle_row =
  dh_did :: string
  dh_handle :: string

record repo_root_row =
  rr_did :: string
  rr_takedownId :: "string option"

record profile_row =
  pr_creator :: string
  pr_uri :: string
  pr_displayName :: "ustring option"
  pr_avatarCid :: "string option"

text \<open>The tables \<open>follow\<close> and \<open>actor_block\<close> have the same columns.\<close>

record graph_row =
  gr_uri :: string
  gr_creator :: string
  gr_subjectDid :: string

record mute_row =
  mu_did :: string
  mu_mutedByDid :: string

record post_row =
  po_uri :: string
  po_cid :: string
  po_creator :: string
  po_indexedAt :: string

record post_agg_row =
  pa_uri :: string
  pa_likeCount :: nat
  pa_repostCount :: nat
  pa_replyCount :: nat

record ipld_block_row =
  ib_cid :: string
  ib_creator :: string
  ib_content :: "nat list"

record record_row =
  re_uri :: string
  re_takedownId :: "string option"

text \<open>The tables \<open>repost\<close> and \<open>like\<close> have the same columns.\<close>

record subject_row =
  su_uri :: string
  su_creator :: string
  su_subject :: string

record feed_generator_row =
  fg_uri :: string
  fg_cid :: string
  fg_creator :: string
  fg_feedDid :: string
  fg_displayName :: "ustring option"

record Database =
  t_did_handle :: "did_handle_row list"
  t_repo_root :: "repo_root_row list"
  t_profile :: "profile_row list"
  t_follow :: "graph_row list"
  t_actor_block :: "graph_row list"
  t_mute :: "mute_row list"
  t_post :: "post_row list"
  t_post_agg :: "post_agg_row list"
  t_ipld_block :: "ipld_block_row list"
  t_record :: "record_row list"
  t_repost :: "subject_row list"
  t_like :: "subject_row list"
  t_feed_generator :: "feed_generator_row list"

text \<open>
  A left join keeps a row without partner, paired with \<open>null\<close>s. A scalar subquery
  in the select list gives the column of the first matching row, or \<open>null\<close>.
\<close>

definition leftJoin :: "'a list \<Rightarrow> 'a option list" where
  "leftJoin rows = (if rows = [] then [None] else map Some rows)"

definition scalarSubquery :: "('a \<Rightarrow> bool) \<Rightarrow> ('a \<Rightarrow> 'c) \<Rightarrow> 'a list \<Rightarrow> 'c option" where
  "scalarSubquery p col rows = map_option col (find p rows)"

text \<open>
  \<open>notSoftDeletedClause\<close> (db/util): \<open>alias."takedownId" is null\<close>.
\<close>

definition notSoftDeletedClause :: "string option \<Rightarrow> bool" where
  "notSoftDeletedClause takedownId = (takedownId = None)"

subsection \<open>Outbound calls\<close>

text \<open>
  What leaves the service: a query on a table with the list of its \<open>in\<close> clause, and the
  calls to the label, actor and graph services with their arguments. A function that
  awaits returns its value together with the calls it made, in the order in which it
  started them.
\<close>

datatype Call =
    Select string "string list"
  | GetLabelsForSubjects "string list"
  | GetListMutes "string list" string
  | GetListViews "string list" string

subsection \<open>Views\<close>

record 'o ViewerState =
  muted :: bool
  mutedByList :: "'o option"
  blockedBy :: bool
  blocking :: "string option"
  following :: "string option"
  followedBy :: "string option"

record 'o ActorInfo =
  did :: string
  handle :: string
  displayName :: "ustring option"
  avatar :: "string option"
  viewer :: "'o ViewerState"
  labels :: "'o list option"

record PostInfo =
  uri :: string
  cid :: string
  creator :: string
  indexedAt :: string
  recordBytes :: "nat list"
  likeCount :: "nat option"
  repostCount :: "nat option"
  replyCount :: "nat option"
  requesterRepost :: "string option"
  requesterLike :: "string option"

text \<open>A row of \<open>selectFeedGeneratorQb\<close>, its columns prefixed.\<close>

record FeedGenInfo =
  gen_uri :: string
  gen_cid :: string
  gen_creator :: string
  gen_feedDid :: string
  gen_displayName :: "ustring option"
  gen_handle :: string
  gen_likeCount :: nat
  gen_viewerLike :: "string option"

text \<open>
  The author of a post view (\<open>ProfileViewBasic\<close>) and the post view (\<open>PostView\<close>), with
  the properties that \<open>getRecordEmbedView\<close> reads; the fields of the post view carry the
  prefix \<open>pv\<close>. A value of type \<open>'o\<close> is produced by another service and only handed on.
\<close>

record 'o ProfileViewBasic =
  pvb_did :: string
  pvb_handle :: string
  pvb_viewer :: "'o ViewerState option"

record ViewImage =
  thumb :: string
  fullsize :: string
  alt :: string

record ViewExternal =
  ve_uri :: string
  ve_title :: string
  ve_description :: string
  ve_thumb :: "string option"

datatype MediaView = ImagesView "ViewImage list" | ExternalView ViewExternal

text \<open>
  \<open>RecordEmbedView\<close> is \<open>{ record: r }\<close>; it is represented by \<open>r\<close>, whose \<open>$type\<close> is the
  constructor. \<open>ViewRecord\<close> has the properties uri, cid, author, value, labels,
  indexedAt and embeds. In \<open>PostEmbedView\<close>, \<open>RecordWithMediaView\<close> holds a record half
  that may be \<open>undefined\<close>, and \<open>UndefinedView\<close> is the value \<open>undefined\<close> stored under a key.
\<close>

datatype 'o RecordEmbedView =
    GeneratorView 'o
  | ListView 'o
  | ViewNotFound string
  | ViewBlocked string
  | ViewRecord string string "'o ProfileViewBasic" 'o "'o list option" string
      "'o PostEmbedView list option"
and 'o PostEmbedView =
    MediaEmbedView MediaView
  | RecordView "'o RecordEmbedView"
  | RecordWithMediaView "'o RecordEmbedView option" MediaView
  | UndefinedView

record 'o PostView =
  pv_uri :: string
  pv_cid :: string
  pv_author :: "'o ProfileViewBasic"
  pv_record :: 'o
  pv_embed :: "'o PostEmbedView option"
  pv_labels :: "'o list option"
  pv_indexedAt :: string

subsection \<open>Post records\<close>

record StrongRef =
  ref_uri :: string
  ref_cid :: string

record EmbedImage =
  image_ref :: string
  image_alt :: string

record External =
  ext_uri :: string
  ext_title :: string
  ext_description :: string
  ext_thumb :: "string option"

text \<open>
  The \<open>embed\<close> of a post record, by its \<open>$type\<close>; \<open>EmbedRecordWithMedia\<close> holds the strong
  reference of its record half and its media half.
\<close>

datatype Media = MediaImages "EmbedImage list" | MediaExternal External | MediaOther string

datatype Embed =
    EmbedImages "EmbedImage list"
  | EmbedExternal External
  | EmbedRecord StrongRef
  | EmbedRecordWithMedia StrongRef Media
  | EmbedOther string

record PostRecord =
  post_text :: ustring
  embed :: "Embed option"

record FeedRow =
  postUri :: string
  postAuthorDid :: string
  originatorDid :: string
  replyParent :: "string option"
  replyRoot :: "string option"

subsection \<open>Collaborators\<close>

text \<open>
  \<open>AtUri\<close> is defined in the package \<open>@atproto/uri\<close>. The constructor is a
  parameter: it gives the parsed uri, of which the code reads \<open>hostname\<close> and
  \<open>collection\<close>, or throws (\<open>None\<close>).
\<close>

record at_uri =
  hostname :: string
  collection :: string

datatype feed_error = InvalidAtUri string

text \<open>
  Modelled from the spec: the lexicon ids of the module \<open>lexicon/lexicons\<close>, which is
  outside the sources embedded here. The three collections by which a record reference
  is partitioned are the content item (a post), the feed generator and the list.
\<close>

definition AppBskyFeedPost :: string where
  "AppBskyFeedPost = ''app.bsky.feed.post''"

definition AppBskyFeedGenerator :: string where
  "AppBskyFeedGenerator = ''app.bsky.feed.generator''"

definition AppBskyGraphList :: string where
  "AppBskyGraphList = ''app.bsky.graph.list''"

text \<open>
  The service with what it holds and calls: the database, the constructor of \<open>AtUri\<close>,
  the label service, the list mutes of the actor service, the graph service, the
  formatting functions of \<open>FeedViews\<close> and the image uri builder.
\<close>

record 'o FeedService =
  db :: Database
  AtUri :: "string \<Rightarrow> at_uri option"
  getLabelsForSubjects :: "string list \<Rightarrow> (string \<rightharpoonup> 'o list)"
  getListMutes :: "string list \<Rightarrow> string \<Rightarrow> (string \<rightharpoonup> 'o)"
  getListViews :: "string list \<Rightarrow> string \<Rightarrow> (string \<rightharpoonup> 'o)"
  formatListView :: "'o \<Rightarrow> (string \<rightharpoonup> 'o ActorInfo) \<Rightarrow> 'o"
  formatFeedGeneratorView ::
    "FeedGenInfo \<Rightarrow> (string \<rightharpoonup> 'o ActorInfo) \<Rightarrow> (string \<rightharpoonup> 'o list) \<Rightarrow> 'o"
  formatPostView ::
    "string \<Rightarrow> (string \<rightharpoonup> 'o ActorInfo) \<Rightarrow> (string \<rightharpoonup> PostInfo)
       \<Rightarrow> (string \<rightharpoonup> 'o PostEmbedView) \<Rightarrow> (string \<rightharpoonup> 'o list) \<Rightarrow> 'o PostView option"
  formatFeed ::
    "FeedRow list \<Rightarrow> (string \<rightharpoonup> 'o ActorInfo) \<Rightarrow> (string \<rightharpoonup> PostInfo)
       \<Rightarrow> (string \<rightharpoonup> 'o PostEmbedView) \<Rightarrow> (string \<rightharpoonup> 'o list) \<Rightarrow> bool option \<Rightarrow> 'o list"
  getCommonSignedUri :: "string \<Rightarrow> string \<Rightarrow> string"

subsection \<open>Iteration and sets\<close>

text \<open>
  A \<open>for\<close> loop over an array whose step updates the loop's variables and may throw:
  the first exception ends the loop.
\<close>

fun forEach :: "('s \<Rightarrow> 'a \<Rightarrow> 'e + 's) \<Rightarrow> 'a list \<Rightarrow> 's \<Rightarrow> 'e + 's" where
  "forEach step [] s = Inr s"
| "forEach step (x # xs) s =
     (case step s x of Inl e \<Rightarrow> Inl e | Inr s' \<Rightarrow> forEach step xs s')"

text \<open>
  A \<open>Set\<close> of strings keeps its members in the order of their first insertion, which is
  the order in which \<open>Array.from\<close> and a spread list them.
\<close>

definition setAdd :: "string \<Rightarrow> string list \<Rightarrow> string list" where
  "setAdd x xs = (if x \<in> set xs then xs else xs @ [x])"

subsection \<open>The batch loaders\<close>

record ActorOpts =
  skipLabels :: bool
  includeSoftDeleted :: bool

text \<open>
  The rows of the query of \<open>getActorInfos\<close> (lines 138 to 184), each the row of
  \<open>did_handle\<close> with the joined profile, if any. The order of the rows is that of the
  tables.
\<close>

definition actorRows ::
  "Database \<Rightarrow> string list \<Rightarrow> bool \<Rightarrow> (did_handle_row \<times> profile_row option) list"
where
  "actorRows d dids inclSoftDeleted =
     [(dh, pr).
        dh \<leftarrow> t_did_handle d, dh_did dh \<in> set dids,
        rr \<leftarrow> t_repo_root d, rr_did rr = dh_did dh,
        pr \<leftarrow> leftJoin (filter (\<lambda>p. pr_creator p = dh_did dh) (t_profile d)),
        inclSoftDeleted \<or> notSoftDeletedClause (rr_takedownId rr)]"

text \<open>The entry that the reducer writes for a row (lines 189 to 208).\<close>

definition actorInfo ::
  "'o FeedService \<Rightarrow> string \<Rightarrow> bool \<Rightarrow> (string \<rightharpoonup> 'o list) \<Rightarrow> (string \<rightharpoonup> 'o)
     \<Rightarrow> did_handle_row \<times> profile_row option \<Rightarrow> 'o ActorInfo"
where
  "actorInfo sv requester skip labelMap listMutes cur =
     (let d = db sv;
          a = dh_did (fst cur);
          requesterFollowing =
            scalarSubquery (\<lambda>f. gr_creator f = requester \<and> gr_subjectDid f = a) gr_uri (t_follow d);
          requesterFollowedBy =
            scalarSubquery (\<lambda>f. gr_creator f = a \<and> gr_subjectDid f = requester) gr_uri (t_follow d);
          requesterBlocking =
            scalarSubquery (\<lambda>f. gr_creator f = requester \<and> gr_subjectDid f = a) gr_uri
              (t_actor_block d);
          requesterBlockedBy =
            scalarSubquery (\<lambda>f. gr_creator f = a \<and> gr_subjectDid f = requester) gr_uri
              (t_actor_block d);
          requesterMuted =
            scalarSubquery (\<lambda>m. mu_did m = a \<and> mu_mutedByDid m = requester) mu_did (t_mute d);
          actorLabels = (case labelMap a of None \<Rightarrow> [] | Some ls \<Rightarrow> ls)
      in \<lparr> did = a,
           handle = dh_handle (fst cur),
           displayName =
             orUndefined
               (truncateUtf8 (case snd cur of None \<Rightarrow> None | Some p \<Rightarrow> pr_displayName p) 64),
           avatar =
             (case snd cur of
                None \<Rightarrow> None
              | Some p \<Rightarrow>
                  if truthy (pr_avatarCid p)
                  then map_option (getCommonSignedUri sv ''avatar'') (pr_avatarCid p)
                  else None),
           viewer =
             \<lparr> muted = (truthy requesterMuted \<or> listMutes a \<noteq> None),
               mutedByList = listMutes a,
               blockedBy = truthy requesterBlockedBy,
               blocking = orUndefined requesterBlocking,
               following = orUndefined requesterFollowing,
               followedBy = orUndefined requesterFollowedBy \<rparr>,
           labels = (if skip then None else Some actorLabels) \<rparr>)"

definition getActorInfos ::
  "'o FeedService \<Rightarrow> string list \<Rightarrow> string \<Rightarrow> ActorOpts
     \<Rightarrow> (string \<rightharpoonup> 'o ActorInfo) \<times> Call list"
where
  "getActorInfos sv dids requester opts =
     (if length dids < 1 then (Map.empty, [])
      else
        (let actors = actorRows (db sv) dids (includeSoftDeleted opts);
             labelSubjects = (if skipLabels opts then [] else dids);
             labelMap = getLabelsForSubjects sv labelSubjects;
             listMutes = getListMutes sv dids requester
         in (foldl
               (\<lambda>acc cur. acc(dh_did (fst cur)
                  \<mapsto> actorInfo sv requester (skipLabels opts) labelMap listMutes cur))
               Map.empty actors,
             [Select ''did_handle'' dids, GetLabelsForSubjects labelSubjects,
              GetListMutes dids requester])))"

text \<open>The rows of the query of \<open>getPostInfos\<close> (lines 220 to 255).\<close>

definition postRows :: "Database \<Rightarrow> string list \<Rightarrow> string \<Rightarrow> PostInfo list" where
  "postRows d postUris requester =
     [\<lparr> uri = po_uri p,
        cid = po_cid p,
        creator = po_creator p,
        indexedAt = po_indexedAt p,
        recordBytes = ib_content b,
        likeCount = map_option pa_likeCount agg,
        repostCount = map_option pa_repostCount agg,
        replyCount = map_option pa_replyCount agg,
        requesterRepost =
          scalarSubquery (\<lambda>r. su_creator r = requester \<and> su_subject r = po_uri p) su_uri (t_repost d),
        requesterLike =
          scalarSubquery (\<lambda>r. su_creator r = requester \<and> su_subject r = po_uri p) su_uri (t_like d) \<rparr>.
        p \<leftarrow> t_post d, po_uri p \<in> set postUris,
        agg \<leftarrow> leftJoin (filter (\<lambda>a. pa_uri a = po_uri p) (t_post_agg d)),
        b \<leftarrow> t_ipld_block d, ib_cid b = po_cid p \<and> ib_creator b = po_creator p,
        rr \<leftarrow> t_repo_root d, rr_did rr = po_creator p,
        re \<leftarrow> t_record d, re_uri re = po_uri p,
        notSoftDeletedClause (rr_takedownId rr),
        notSoftDeletedClause (re_takedownId re)]"

definition getPostInfos ::
  "'o FeedService \<Rightarrow> string list \<Rightarrow> string \<Rightarrow> (string \<rightharpoonup> PostInfo) \<times> Call list"
where
  "getPostInfos sv postUris requester =
     (if length postUris < 1 then (Map.empty, [])
      else
        (foldl (\<lambda>acc cur. acc(uri cur \<mapsto> cur)) Map.empty (postRows (db sv) postUris requester),
         [Select ''post'' postUris]))"

text \<open>\<open>selectFeedGeneratorQb\<close> (lines 97 to 126), as the rows it selects.\<close>

definition selectFeedGeneratorQb :: "Database \<Rightarrow> string \<Rightarrow> FeedGenInfo list" where
  "selectFeedGeneratorQb d requester =
     [\<lparr> gen_uri = fg_uri g,
        gen_cid = fg_cid g,
        gen_creator = fg_creator g,
        gen_feedDid = fg_feedDid g,
        gen_displayName = fg_displayName g,
        gen_handle = dh_handle dh,
        gen_likeCount = length (filter (\<lambda>l. su_subject l = fg_uri g) (t_like d)),
        gen_viewerLike =
          scalarSubquery (\<lambda>l. su_creator l = requester \<and> su_subject l = fg_uri g) su_uri (t_like d) \<rparr>.
        g \<leftarrow> t_feed_generator d,
        dh \<leftarrow> t_did_handle d, dh_did dh = fg_creator g,
        rr \<leftarrow> t_repo_root d, rr_did rr = fg_creator g,
        re \<leftarrow> t_record d, re_uri re = fg_uri g,
        notSoftDeletedClause (rr_takedownId rr),
        notSoftDeletedClause (re_takedownId re)]"

definition getFeedGeneratorInfos ::
  "'o FeedService \<Rightarrow> string list \<Rightarrow> string \<Rightarrow> (string \<rightharpoonup> FeedGenInfo) \<times> Call list"
where
  "getFeedGeneratorInfos sv generatorUris requester =
     (if length generatorUris < 1 then (Map.empty, [])
      else
        (foldl (\<lambda>acc cur. acc(gen_uri cur \<mapsto> cur)) Map.empty
           (filter (\<lambda>g. gen_uri g \<in> set generatorUris) (selectFeedGeneratorQb (db sv) requester)),
         [Select ''feed_generator'' generatorUris]))"

subsection \<open>Embeds\<close>

definition imagesEmbedView :: "'o FeedService \<Rightarrow> EmbedImage list \<Rightarrow> MediaView" where
  "imagesEmbedView sv images =
     ImagesView
       (map (\<lambda>img. \<lparr> thumb = getCommonSignedUri sv ''feed_thumbnail'' (image_ref img),
                      fullsize = getCommonSignedUri sv ''feed_fullsize'' (image_ref img),
                      alt = image_alt img \<rparr>)
          images)"

definition externalEmbedView :: "'o FeedService \<Rightarrow> External \<Rightarrow> MediaView" where
  "externalEmbedView sv external =
     ExternalView
       \<lparr> ve_uri = ext_uri external,
         ve_title = ext_title external,
         ve_description = ext_description external,
         ve_thumb = map_option (getCommonSignedUri sv ''feed_thumbnail'') (ext_thumb external) \<rparr>"

fun nestedRecordUris :: "PostRecord list \<Rightarrow> string list" where
  "nestedRecordUris [] = []"
| "nestedRecordUris (p # ps) =
     (case embed p of
        None \<Rightarrow> nestedRecordUris ps
      | Some (EmbedRecord r) \<Rightarrow> ref_uri r # nestedRecordUris ps
      | Some (EmbedRecordWithMedia r m) \<Rightarrow> ref_uri r # nestedRecordUris ps
      | Some _ \<Rightarrow> nestedRecordUris ps)"

text \<open>
  The first loop of \<open>nestedRecordViews\<close> (lines 369 to 379); its variables are the three
  arrays of uris and the set of dids.
\<close>

definition nestedPartition ::
  "'o FeedService \<Rightarrow> string list \<times> string list \<times> string list \<times> string list \<Rightarrow> string
     \<Rightarrow> feed_error + string list \<times> string list \<times> string list \<times> string list"
where
  "nestedPartition sv acc u =
     (case acc of (nestedPostUris, nestedFeedGenUris, nestedListUris, nestedDidsSet) \<Rightarrow>
        (case AtUri sv u of
           None \<Rightarrow> Inl (InvalidAtUri u)
         | Some parsed \<Rightarrow>
             (let dids = setAdd (hostname parsed) nestedDidsSet
              in if collection parsed = AppBskyFeedPost
                   then Inr (nestedPostUris @ [u], nestedFeedGenUris, nestedListUris, dids)
                 else if collection parsed = AppBskyFeedGenerator
                   then Inr (nestedPostUris, nestedFeedGenUris @ [u], nestedListUris, dids)
                 else if collection parsed = AppBskyGraphList
                   then Inr (nestedPostUris, nestedFeedGenUris, nestedListUris @ [u], dids)
                 else Inr (nestedPostUris, nestedFeedGenUris, nestedListUris, dids))))"

text \<open>
  The body of the second loop (lines 400 to 438). In the branch of a post that was
  loaded the view is formatted, with no deep embeds, into a constant that is not used
  again; nothing is stored under the uri.
\<close>

definition recordEmbedView ::
  "'o FeedService \<Rightarrow> (string \<rightharpoonup> PostInfo) \<Rightarrow> (string \<rightharpoonup> 'o ActorInfo) \<Rightarrow> (string \<rightharpoonup> 'o list)
     \<Rightarrow> (string \<rightharpoonup> FeedGenInfo) \<Rightarrow> (string \<rightharpoonup> 'o)
     \<Rightarrow> (string \<rightharpoonup> 'o RecordEmbedView) \<Rightarrow> string
     \<Rightarrow> feed_error + (string \<rightharpoonup> 'o RecordEmbedView)"
where
  "recordEmbedView sv postInfos actorInfos labelViews feedGenInfos listViews recordEmbedViews u =
     (case AtUri sv u of
        None \<Rightarrow> Inl (InvalidAtUri u)
      | Some parsed \<Rightarrow>
          if collection parsed = AppBskyFeedGenerator \<and> feedGenInfos u \<noteq> None then
            Inr (recordEmbedViews(u \<mapsto>
              GeneratorView
                (formatFeedGeneratorView sv (the (feedGenInfos u)) actorInfos labelViews)))
          else if collection parsed = AppBskyGraphList \<and> listViews u \<noteq> None then
            Inr (recordEmbedViews(u \<mapsto>
              ListView (formatListView sv (the (listViews u)) actorInfos)))
          else if collection parsed = AppBskyFeedPost \<and> postInfos u \<noteq> None then
            (let deepEmbedViews = Map.empty;
                 formatted = formatPostView sv u actorInfos postInfos deepEmbedViews labelViews
             in Inr recordEmbedViews)
          else Inr (recordEmbedViews(u \<mapsto> ViewNotFound u)))"

definition nestedRecordViews ::
  "'o FeedService \<Rightarrow> PostRecord list \<Rightarrow> string
     \<Rightarrow> feed_error + (string \<rightharpoonup> 'o RecordEmbedView) \<times> Call list"
where
  "nestedRecordViews sv posts requester =
     (let nestedUris = nestedRecordUris posts
      in if length nestedUris < 1 then Inr (Map.empty, [])
         else
           (case forEach (nestedPartition sv) nestedUris ([], [], [], []) of
              Inl e \<Rightarrow> Inl e
            | Inr (nestedPostUris, nestedFeedGenUris, nestedListUris, nestedDids) \<Rightarrow>
                (let (postInfos, calls1) = getPostInfos sv nestedPostUris requester;
                     (actorInfos, calls2) =
                       getActorInfos sv nestedDids requester
                         \<lparr> skipLabels = True, includeSoftDeleted = False \<rparr>;
                     labelViews = getLabelsForSubjects sv (nestedPostUris @ nestedDids);
                     (feedGenInfos, calls4) = getFeedGeneratorInfos sv nestedFeedGenUris requester;
                     listViews = getListViews sv nestedListUris requester;
                     calls =
                       calls1 @ calls2 @ [GetLabelsForSubjects (nestedPostUris @ nestedDids)]
                         @ calls4 @ [GetListViews nestedListUris requester]
                 in (case forEach
                            (recordEmbedView sv postInfos actorInfos labelViews feedGenInfos listViews)
                            nestedUris Map.empty of
                       Inl e \<Rightarrow> Inl e
                     | Inr recordEmbedViews \<Rightarrow> Inr (recordEmbedViews, calls)))))"

text \<open>
  \<open>postRecordsFromInfos\<close> (lines 442 to 444) returns the empty object, whatever its
  argument. The object is a list of entries, in the order of \<open>Object.entries\<close>.
\<close>

definition postRecordsFromInfos :: "(string \<rightharpoonup> PostInfo) \<Rightarrow> (string \<times> PostRecord) list" where
  "postRecordsFromInfos infos = []"

text \<open>The body of the loop of \<open>embedsForPosts\<close> (lines 461 to 484).\<close>

definition postEmbedView ::
  "'o FeedService \<Rightarrow> (string \<rightharpoonup> 'o RecordEmbedView) \<Rightarrow> (string \<rightharpoonup> 'o PostEmbedView)
     \<Rightarrow> string \<times> PostRecord \<Rightarrow> (string \<rightharpoonup> 'o PostEmbedView)"
where
  "postEmbedView sv recordEmbedViews postEmbedViews entry =
     (case embed (snd entry) of
        None \<Rightarrow> postEmbedViews
      | Some (EmbedImages images) \<Rightarrow>
          postEmbedViews(fst entry \<mapsto> MediaEmbedView (imagesEmbedView sv images))
      | Some (EmbedExternal external) \<Rightarrow>
          postEmbedViews(fst entry \<mapsto> MediaEmbedView (externalEmbedView sv external))
      | Some (EmbedRecord r) \<Rightarrow>
          postEmbedViews(fst entry \<mapsto>
            (case recordEmbedViews (ref_uri r) of None \<Rightarrow> UndefinedView | Some v \<Rightarrow> RecordView v))
      | Some (EmbedRecordWithMedia r media) \<Rightarrow>
          (case media of
             MediaImages images \<Rightarrow>
               postEmbedViews(fst entry \<mapsto>
                 RecordWithMediaView (recordEmbedViews (ref_uri r)) (imagesEmbedView sv images))
           | MediaExternal external \<Rightarrow>
               postEmbedViews(fst entry \<mapsto>
                 RecordWithMediaView (recordEmbedViews (ref_uri r)) (externalEmbedView sv external))
           | MediaOther t \<Rightarrow> postEmbedViews)
      | Some (EmbedOther t) \<Rightarrow> postEmbedViews)"

definition embedsForPosts ::
  "'o FeedService \<Rightarrow> (string \<rightharpoonup> PostInfo) \<Rightarrow> string \<Rightarrow> bool
     \<Rightarrow> feed_error + (string \<rightharpoonup> 'o PostEmbedView) \<times> Call list"
where
  "embedsForPosts sv postInfos requester excludeNested =
     (let postMap = postRecordsFromInfos postInfos;
          posts = map snd postMap
      in if length posts < 1 then Inr (Map.empty, [])
         else
           (case (if excludeNested then Inr (Map.empty, [])
                  else nestedRecordViews sv posts requester) of
              Inl e \<Rightarrow> Inl e
            | Inr (recordEmbedViews, calls) \<Rightarrow>
                Inr (foldl (postEmbedView sv recordEmbedViews) Map.empty postMap, calls)))"

text \<open>\<open>getRecordEmbedView\<close> (lines 544 to 571). No function of the file calls it.\<close>

definition getRecordEmbedView ::
  "string \<Rightarrow> 'o PostView option \<Rightarrow> 'o PostEmbedView list option \<Rightarrow> 'o RecordEmbedView"
where
  "getRecordEmbedView u postView embeds =
     (case postView of
        None \<Rightarrow> ViewNotFound u
      | Some p \<Rightarrow>
          if truthy (case pvb_viewer (pv_author p) of None \<Rightarrow> None | Some v \<Rightarrow> blocking v)
             \<or> (case pvb_viewer (pv_author p) of None \<Rightarrow> False | Some v \<Rightarrow> blockedBy v)
          then ViewBlocked u
          else ViewRecord (pv_uri p) (pv_cid p) (pv_author p) (pv_record p) (pv_labels p)
                 (pv_indexedAt p) embeds)"

subsection \<open>hydrateFeed\<close>

text \<open>The body of the loop (lines 496 to 510); its variables are the two sets.\<close>

definition hydrateFeedIds ::
  "'o FeedService \<Rightarrow> string list \<times> string list \<Rightarrow> FeedRow
     \<Rightarrow> feed_error + string list \<times> string list"
where
  "hydrateFeedIds sv acc item =
     (case acc of (actorDids0, postUris0) \<Rightarrow>
        (let actorDids1 = setAdd (postAuthorDid item) actorDids0;
             postUris1 = setAdd (postUri item) postUris0;
             actorDids2 =
               (if postAuthorDid item \<noteq> originatorDid item
                then setAdd (originatorDid item) actorDids1 else actorDids1)
         in (case (if truthy (replyParent item)
                   then (case AtUri sv (the (replyParent item)) of
                           None \<Rightarrow> Inl (InvalidAtUri (the (replyParent item)))
                         | Some parsed \<Rightarrow>
                             Inr (setAdd (hostname parsed) actorDids2,
                                  setAdd (the (replyParent item)) postUris1))
                   else Inr (actorDids2, postUris1)) of
               Inl e \<Rightarrow> Inl e
             | Inr (actorDids3, postUris3) \<Rightarrow>
                 if truthy (replyRoot item)
                 then (case AtUri sv (the (replyRoot item)) of
                         None \<Rightarrow> Inl (InvalidAtUri (the (replyRoot item)))
                       | Some parsed \<Rightarrow>
                           Inr (setAdd (hostname parsed) actorDids3,
                                setAdd (the (replyRoot item)) postUris3))
                 else Inr (actorDids3, postUris3))))"

definition hydrateFeed ::
  "'o FeedService \<Rightarrow> FeedRow list \<Rightarrow> string \<Rightarrow> bool option \<Rightarrow> feed_error + 'o list \<times> Call list"
where
  "hydrateFeed sv rows requester usePostViewUnion =
     (case forEach (hydrateFeedIds sv) rows ([], []) of
        Inl e \<Rightarrow> Inl e
      | Inr (actorDids, postUris) \<Rightarrow>
          (let (actors, calls1) =
                 getActorInfos sv actorDids requester \<lparr> skipLabels = True, includeSoftDeleted = False \<rparr>;
               (posts, calls2) = getPostInfos sv postUris requester;
               labelMap = getLabelsForSubjects sv (postUris @ actorDids)
           in (case embedsForPosts sv posts requester False of
                 Inl e \<Rightarrow> Inl e
               | Inr (embeds, calls3) \<Rightarrow>
                   Inr (formatFeed sv rows actors posts embeds labelMap usePostViewUnion,
                        calls1 @ calls2 @ [GetLabelsForSubjects (postUris @ actorDids)] @ calls3))))"

section \<open>Example inputs\<close>

text \<open>
  A feed generator that answers with three entries, the second a repost, a cursor and one
  further property; and the same context with a generator call that throws.
\<close>

definition ex_feed :: string where
  "ex_feed = ''at://did:web:gen/app.bsky.feed.generator/hot''"

definition ex_entries :: "SkeletonFeedPost list" where
  "ex_entries =
     [\<lparr> skel_post = ''at://did:a/app.bsky.feed.post/1'', skel_reason = None,
        skel_feedContext = None \<rparr>,
      \<lparr> skel_post = ''at://did:c/app.bsky.feed.post/3'',
        skel_reason = Some \<lparr> reason_type = ''app.bsky.feed.defs#skeletonReasonRepost'',
                             reason_repost = Some ''at://did:b/app.bsky.feed.repost/2'' \<rparr>,
        skel_feedContext = Some ''ctx-b'' \<rparr>,
      \<lparr> skel_post = ''at://did:d/app.bsky.feed.post/4'', skel_reason = None,
        skel_feedContext = None \<rparr>]"

definition ex_ctx :: "(unit, unit, nat, unit) HydrateCtx" where
  "ex_ctx =
     \<lparr> getFeedGens = (\<lambda>f. Inr (if f = ex_feed then Some ''did:web:gen'' else None)),
       getIdentityByDid = (\<lambda>d. if d = ''did:web:gen'' then Inr () else Inl (ConnectError NotFound)),
       getServiceEndpoint =
         (\<lambda>s i t. if i = ''bsky_fg'' \<and> t = ''BskyFeedGenerator''
                    then Some ''https://gen.example'' else None),
       getFeedSkeleton =
         (\<lambda>ep p hs.
            Inr \<lparr> data = \<lparr> skel_feed = ex_entries, skel_cursor = Some ''c1'',
                            skel_more = [''reqId'' \<mapsto> 7] \<rparr>,
                  headers = [''content-language'' \<mapsto> ''en''] \<rparr>),
       hydrateFeedItems = (\<lambda>its. Inr ()) \<rparr>"

definition ex_ctx_failing :: "unit thrown \<Rightarrow> (unit, unit, nat, unit) HydrateCtx" where
  "ex_ctx_failing err = ex_ctx\<lparr> getFeedSkeleton := (\<lambda>ep p hs. Inl err) \<rparr>"

definition ex_params :: QueryParams where
  "ex_params = \<lparr> feed = ex_feed, limit = 50, cursor = None \<rparr>"

text \<open>Views under which the originator of the repost is muted by the viewer.\<close>

definition ex_views :: "(unit, string, nat) Views" where
  "ex_views =
     \<lparr> feedItemBlocksAndMutes =
         (\<lambda>item h. \<lparr> authorBlocked = False, authorMuted = False, originatorBlocked = False,
                      originatorMuted = (repost item = Some ''at://did:b/app.bsky.feed.repost/2''),
                      ancestorAuthorBlocked = False \<rparr>),
       feedViewPost = (\<lambda>item h. Some (post item)),
       serverTimingHeader = (\<lambda>ts. ''skele, hydr'') \<rparr>"

definition ex_items :: "AlgoResponseItem list" where
  "ex_items = map toFeedItem ex_entries"

definition ex_skeleton :: "(nat, nat) Skeleton" where
  "ex_skeleton =
     \<lparr> items = ex_items, passthrough = Map.empty, sk_resHeaders = None,
       sk_cursor = Some ''c1'', timerSkele = 1, timerHydr = 2 \<rparr>"

text \<open>Two requests that differ only in headers outside the allow-list.\<close>

definition ex_headers1 :: IncomingHttpHeaders where
  "ex_headers1 =
     [''authorization'' \<mapsto> Single ''Bearer t'', ''cookie'' \<mapsto> Single ''sid=1'',
      ''x-bsky-topics'' \<mapsto> Multi [''a'', ''b'']]"

definition ex_headers2 :: IncomingHttpHeaders where
  "ex_headers2 =
     [''authorization'' \<mapsto> Single ''Bearer t'', ''x-forwarded-for'' \<mapsto> Single ''10.0.0.1'',
      ''x-bsky-topics'' \<mapsto> Multi [''a'', ''b'']]"

text \<open>
  A constructor of \<open>AtUri\<close> for the examples: it accepts \<open>at://host/collection/rkey\<close> and
  throws when the scheme or the host is missing.
\<close>

fun splitOn :: "char \<Rightarrow> string \<Rightarrow> string list" where
  "splitOn c [] = [[]]"
| "splitOn c (x # xs) =
     (if x = c then [] # splitOn c xs
      else (case splitOn c xs of [] \<Rightarrow> [[x]] | w # ws \<Rightarrow> (x # w) # ws))"

definition ex_AtUri :: "string \<Rightarrow> at_uri option" where
  "ex_AtUri u =
     (if take 5 u = ''at://'' then
        (case splitOn CHR ''/'' (drop 5 u) of
           [] \<Rightarrow> None
         | [h] \<Rightarrow> if h = [] then None else Some \<lparr> hostname = h, collection = [] \<rparr>
         | h # c # rest \<Rightarrow> if h = [] then None else Some \<lparr> hostname = h, collection = c \<rparr>)
      else None)"

text \<open>
  A database with three accounts: alice, bob (taken down) and carol, who blocks the
  viewer. Post 1 is alice's, post 2 bob's, post 3 alice's with its record taken down,
  post 5 carol's; alice has a feed generator.
\<close>

definition ex_db :: Database where
  "ex_db =
     \<lparr> t_did_handle =
         [\<lparr> dh_did = ''did:plc:alice'', dh_handle = ''alice.test'' \<rparr>,
          \<lparr> dh_did = ''did:plc:bob'', dh_handle = ''bob.test'' \<rparr>,
          \<lparr> dh_did = ''did:plc:carol'', dh_handle = ''carol.test'' \<rparr>],
       t_repo_root =
         [\<lparr> rr_did = ''did:plc:alice'', rr_takedownId = None \<rparr>,
          \<lparr> rr_did = ''did:plc:bob'', rr_takedownId = Some ''7'' \<rparr>,
          \<lparr> rr_did = ''did:plc:carol'', rr_takedownId = None \<rparr>],
       t_profile =
         [\<lparr> pr_creator = ''did:plc:alice'', pr_uri = ''at://did:plc:alice/app.bsky.actor.profile/self'',
            pr_displayName = Some [0x41, 0x6C, 0x69, 0x63, 0x65], pr_avatarCid = Some ''bafy-av'' \<rparr>],
       t_follow = [],
       t_actor_block =
         [\<lparr> gr_uri = ''at://did:plc:carol/app.bsky.graph.block/1'', gr_creator = ''did:plc:carol'',
            gr_subjectDid = ''did:plc:viewer'' \<rparr>],
       t_mute = [],
       t_post =
         [\<lparr> po_uri = ''at://did:plc:alice/app.bsky.feed.post/1'', po_cid = ''c1'',
            po_creator = ''did:plc:alice'', po_indexedAt = ''2023-06-01'' \<rparr>,
          \<lparr> po_uri = ''at://did:plc:bob/app.bsky.feed.post/2'', po_cid = ''c2'',
            po_creator = ''did:plc:bob'', po_indexedAt = ''2023-06-02'' \<rparr>,
          \<lparr> po_uri = ''at://did:plc:alice/app.bsky.feed.post/3'', po_cid = ''c3'',
            po_creator = ''did:plc:alice'', po_indexedAt = ''2023-06-03'' \<rparr>,
          \<lparr> po_uri = ''at://did:plc:carol/app.bsky.feed.post/5'', po_cid = ''c5'',
            po_creator = ''did:plc:carol'', po_indexedAt = ''2023-06-05'' \<rparr>],
       t_post_agg = [],
       t_ipld_block =
         [\<lparr> ib_cid = ''c1'', ib_creator = ''did:plc:alice'', ib_content = [1] \<rparr>,
          \<lparr> ib_cid = ''c2'', ib_creator = ''did:plc:bob'', ib_content = [2] \<rparr>,
          \<lparr> ib_cid = ''c3'', ib_creator = ''did:plc:alice'', ib_content = [3] \<rparr>,
          \<lparr> ib_cid = ''c5'', ib_creator = ''did:plc:carol'', ib_content = [5] \<rparr>],
       t_record =
         [\<lparr> re_uri = ''at://did:plc:alice/app.bsky.feed.post/1'', re_takedownId = None \<rparr>,
          \<lparr> re_uri = ''at://did:plc:bob/app.bsky.feed.post/2'', re_takedownId = None \<rparr>,
          \<lparr> re_uri = ''at://did:plc:alice/app.bsky.feed.post/3'', re_takedownId = Some ''8'' \<rparr>,
          \<lparr> re_uri = ''at://did:plc:carol/app.bsky.feed.post/5'', re_takedownId = None \<rparr>,
          \<lparr> re_uri = ''at://did:plc:alice/app.bsky.feed.generator/g'', re_takedownId = None \<rparr>],
       t_repost = [],
       t_like = [],
       t_feed_generator =
         [\<lparr> fg_uri = ''at://did:plc:alice/app.bsky.feed.generator/g'', fg_cid = ''cg'',
            fg_creator = ''did:plc:alice'', fg_feedDid = ''did:web:gen'', fg_displayName = None \<rparr>] \<rparr>"

text \<open>
  A service on this database whose collaborators know no labels, no list mutes and no
  lists, and whose \<open>formatPostView\<close> builds the view of a loaded post with a loaded author.
\<close>

definition ex_formatPostView ::
  "string \<Rightarrow> (string \<rightharpoonup> string ActorInfo) \<Rightarrow> (string \<rightharpoonup> PostInfo)
     \<Rightarrow> (string \<rightharpoonup> string PostEmbedView) \<Rightarrow> (string \<rightharpoonup> string list) \<Rightarrow> string PostView option"
where
  "ex_formatPostView u actors posts embeds labelMap =
     (case posts u of
        None \<Rightarrow> None
      | Some p \<Rightarrow>
          (case actors (creator p) of
             None \<Rightarrow> None
           | Some a \<Rightarrow>
               Some \<lparr> pv_uri = u, pv_cid = cid p,
                      pv_author = \<lparr> pvb_did = did a, pvb_handle = handle a,
                                    pvb_viewer = Some (viewer a) \<rparr>,
                      pv_record = ''record'', pv_embed = embeds u, pv_labels = labelMap u,
                      pv_indexedAt = indexedAt p \<rparr>))"

definition ex_sv :: "string FeedService" where
  "ex_sv =
     \<lparr> db = ex_db,
       AtUri = ex_AtUri,
       getLabelsForSubjects = (\<lambda>subjects. Map.empty),
       getListMutes = (\<lambda>dids requester. Map.empty),
       getListViews = (\<lambda>uris requester. Map.empty),
       formatListView = (\<lambda>v actors. v),
       formatFeedGeneratorView = (\<lambda>g actors labelMap. ''generator''),
       formatPostView = ex_formatPostView,
       formatFeed = (\<lambda>rows actors posts embeds labelMap u. []),
       getCommonSignedUri = (\<lambda>variant c. variant @ ''/'' @ c) \<rparr>"

definition ex_post1 :: string where
  "ex_post1 = ''at://did:plc:alice/app.bsky.feed.post/1''"

definition ex_post2 :: string where
  "ex_post2 = ''at://did:plc:bob/app.bsky.feed.post/2''"

definition ex_post3 :: string where
  "ex_post3 = ''at://did:plc:alice/app.bsky.feed.post/3''"

definition ex_post5 :: string where
  "ex_post5 = ''at://did:plc:carol/app.bsky.feed.post/5''"

definition ex_gone :: string where
  "ex_gone = ''at://did:plc:alice/app.bsky.feed.post/9''"

text \<open>Posts that quote another record, and a post with an image.\<close>

definition quoting :: "string \<Rightarrow> PostRecord" where
  "quoting u = \<lparr> post_text = [], embed = Some (EmbedRecord \<lparr> ref_uri = u, ref_cid = ''c'' \<rparr>) \<rparr>"

definition ex_imagePost :: PostRecord where
  "ex_imagePost =
     \<lparr> post_text = [],
       embed = Some (EmbedImages [\<lparr> image_ref = ''bafy-img'', image_alt = ''a cat'' \<rparr>]) \<rparr>"

definition ex_gen :: string where
  "ex_gen = ''at://did:plc:alice/app.bsky.feed.generator/g''"

definition ex_viewer :: string where
  "ex_viewer = ''did:plc:viewer''"

section \<open>Notions of the specification\<close>

text \<open>
  The views that the loop of \<open>nestedRecordViews\<close> stores under a uri \<open>k\<close>: the summary of a
  feed generator or of a list, or the not-found view of \<open>k\<close>.
\<close>

definition summaryOrNotFound :: "string \<Rightarrow> 'o RecordEmbedView \<Rightarrow> bool" where
  "summaryOrNotFound k v =
     (case v of
        GeneratorView g \<Rightarrow> True
      | ListView l \<Rightarrow> True
      | ViewNotFound u \<Rightarrow> u = k
      | ViewBlocked u \<Rightarrow> False
      | ViewRecord u c a val ls i es \<Rightarrow> False)"

text \<open>
  What the rules stage hides, in the words of the specification: an item is hidden when
  its author or its repost originator is blocked (either direction) or muted, or when a
  reply ancestor's author is blocked.
\<close>

definition hidden :: "('h, 'p, 't) Views \<Rightarrow> 'h \<Rightarrow> AlgoResponseItem \<Rightarrow> bool" where
  "hidden views h item =
     (authorBlocked (feedItemBlocksAndMutes views item h)
      \<or> originatorBlocked (feedItemBlocksAndMutes views item h)
      \<or> authorMuted (feedItemBlocksAndMutes views item h)
      \<or> originatorMuted (feedItemBlocksAndMutes views item h)
      \<or> ancestorAuthorBlocked (feedItemBlocksAndMutes views item h))"

section \<open>Properties of the feed endpoint\<close>

lemma skeleton_Inr:
  assumes "skeleton ctx params hs tSkele tHydr = Inr sk"
  shows "\<exists>algo. skeletonFromFeedGen ctx params hs = Inr algo
           \<and> sk_cursor sk = algo_cursor algo
           \<and> items sk = feedItems algo
           \<and> passthrough sk ''cursor'' = None"
  using assms by (auto simp: skeleton_def split: sum.splits)

lemma hydration_Inr:
  assumes "hydration ctx sk tStop = Inr (sk', h)"
  shows "sk' = sk\<lparr>timerHydr := tStop\<rparr>"
  using assms by (auto simp: hydration_def split: sum.splits)

lemma presentation_cursor:
  assumes "passthrough sk ''cursor'' = None"
  shows "body (presentation views params sk h) ''cursor'' = Some (Cursor (sk_cursor sk))"
  using assms by (simp add: presentation_def Let_def map_add_def)

lemma ex_skeletonFromFeedGen:
  "skeletonFromFeedGen ex_ctx ex_params hs = Inr (fromResponse
     \<lparr> data = \<lparr> skel_feed = ex_entries, skel_cursor = Some ''c1'', skel_more = [''reqId'' \<mapsto> 7] \<rparr>,
       headers = [''content-language'' \<mapsto> ''en''] \<rparr>)"
  by (simp add: skeletonFromFeedGen_def ex_ctx_def ex_params_def)

text \<open>
  C3. When the skeleton and hydration stages succeed, the body's \<open>cursor\<close> of the final
  response is the cursor of the skeleton stage, which is the cursor that
  \<open>skeletonFromFeedGen\<close> returned; the rules stage leaves the cursor field alone and the
  truncation to \<open>limit\<close> does not touch it.
\<close>

theorem getFeed_cursor_unchanged:
  assumes "skeleton ctx params hs tSkele tHydr = Inr sk"
    and "hydration ctx sk tStop = Inr (sk', h)"
  shows "body (presentation views params (noBlocksOrMutes views sk' h) h) ''cursor''
           = Some (Cursor (sk_cursor sk))
         \<and> sk_cursor (noBlocksOrMutes views sk' h) = sk_cursor sk
         \<and> (\<exists>algo. skeletonFromFeedGen ctx params hs = Inr algo
                \<and> sk_cursor sk = algo_cursor algo)"
proof -
  from skeleton_Inr [OF assms(1)] obtain algo where
    algo: "skeletonFromFeedGen ctx params hs = Inr algo" "sk_cursor sk = algo_cursor algo"
    and pt: "passthrough sk ''cursor'' = None"
    by blast
  have sk': "sk' = sk\<lparr>timerHydr := tStop\<rparr>"
    by (rule hydration_Inr [OF assms(2)])
  have frame: "sk_cursor (noBlocksOrMutes views sk' h) = sk_cursor sk"
    "passthrough (noBlocksOrMutes views sk' h) ''cursor'' = None"
    using pt by (simp_all add: noBlocksOrMutes_def sk')
  from presentation_cursor [OF frame(2)] frame(1) algo show ?thesis
    by auto
qed

theorem getFeed_cursor_unchanged_witness:
  "\<exists>sk sk' h.
     skeleton ex_ctx ex_params ex_headers1 (1::nat) 2 = Inr sk
     \<and> hydration ex_ctx sk 3 = Inr (sk', h)
     \<and> body (presentation ex_views ex_params (noBlocksOrMutes ex_views sk' h) h)
           ''cursor'' = Some (Cursor (Some ''c1''))"
proof -
  obtain sk :: "(nat, nat) Skeleton" where
    sk: "skeleton ex_ctx ex_params ex_headers1 1 2 = Inr sk" and c: "sk_cursor sk = Some ''c1''"
    by (simp add: skeleton_def ex_skeletonFromFeedGen fromResponse_def)
  have hy: "hydration ex_ctx sk 3 = Inr (sk\<lparr>timerHydr := 3\<rparr>, ())"
    by (simp add: hydration_def ex_ctx_def)
  from getFeed_cursor_unchanged [OF sk hy, where views = ex_views] c sk hy
  show ?thesis by auto
qed

lemma skeletonFromFeedGen_call:
  assumes "getFeedGens ctx (feed params) = Inr (Some feedDid)" and "feedDid \<noteq> []"
    and "getIdentityByDid ctx feedDid = Inr services"
    and "getServiceEndpoint ctx services ''bsky_fg'' ''BskyFeedGenerator'' = Some fgEndpoint"
    and "fgEndpoint \<noteq> []"
  shows "skeletonFromFeedGen ctx params hs =
           (case getFeedSkeleton ctx fgEndpoint
                   \<lparr> feed = feed params, limit = limit params, cursor = cursor params \<rparr>
                   (forwardedHeaders hs) of
              Inl err \<Rightarrow> Inl (catchSkeletonError err)
            | Inr result \<Rightarrow> Inr (fromResponse result))"
  using assms by (simp add: skeletonFromFeedGen_def)

text \<open>
  C4. When the feed generator's endpoint has been resolved and the outbound call throws
  \<open>err\<close>, \<open>skeletonFromFeedGen\<close> throws: for an \<open>UnknownFeedError\<close>, an
  \<open>InvalidRequestError\<close> (the client's fault) with the upstream message and the error
  name \<open>UnknownFeed\<close>; for an \<open>XRPCError\<close> of status \<open>Unknown\<close>, an
  \<open>UpstreamFailureError\<close> "feed unavailable" with no error name of its own; for an
  \<open>XRPCError\<close> of status \<open>InvalidResponse\<close>, an \<open>UpstreamFailureError\<close> with the error
  name \<open>InvalidFeedResponse\<close>; and for anything else, \<open>err\<close> itself.
\<close>

theorem skeletonFromFeedGen_error_taxonomy:
  assumes "getFeedGens ctx (feed params) = Inr (Some feedDid)" and "feedDid \<noteq> []"
    and "getIdentityByDid ctx feedDid = Inr services"
    and "getServiceEndpoint ctx services ''bsky_fg'' ''BskyFeedGenerator'' = Some fgEndpoint"
    and "fgEndpoint \<noteq> []"
    and "getFeedSkeleton ctx fgEndpoint
           \<lparr> feed = feed params, limit = limit params, cursor = cursor params \<rparr>
           (forwardedHeaders hs) = Inl err"
  shows "(\<forall>st msg. err = UnknownFeedError st msg \<longrightarrow>
            skeletonFromFeedGen ctx params hs = Inl (InvalidRequestError msg (Some ''UnknownFeed'')))
       \<and> (\<forall>msg. err = XRPCError Unknown msg \<longrightarrow>
            skeletonFromFeedGen ctx params hs = Inl (UpstreamFailureError ''feed unavailable'' None))
       \<and> (\<forall>msg. err = XRPCError InvalidResponse msg \<longrightarrow>
            skeletonFromFeedGen ctx params hs =
              Inl (UpstreamFailureError ''feed provided an invalid response''
                     (Some ''InvalidFeedResponse'')))
       \<and> ((\<forall>st msg. err \<noteq> UnknownFeedError st msg)
            \<and> (\<forall>msg. err \<noteq> XRPCError Unknown msg)
            \<and> (\<forall>msg. err \<noteq> XRPCError InvalidResponse msg) \<longrightarrow>
            skeletonFromFeedGen ctx params hs = Inl err)"
proof -
  have res: "skeletonFromFeedGen ctx params hs = Inl (catchSkeletonError err)"
    using skeletonFromFeedGen_call [OF assms(1-5), of hs] assms(6) by simp
  show ?thesis
    unfolding res by (cases err) auto
qed

theorem skeletonFromFeedGen_error_taxonomy_witness:
  "skeletonFromFeedGen (ex_ctx_failing (UnknownFeedError (OtherStatus 400) ''no such feed''))
       ex_params ex_headers1
     = Inl (InvalidRequestError ''no such feed'' (Some ''UnknownFeed''))
   \<and> skeletonFromFeedGen (ex_ctx_failing (XRPCError Unknown ''fetch failed'')) ex_params ex_headers1
     = Inl (UpstreamFailureError ''feed unavailable'' None)
   \<and> skeletonFromFeedGen (ex_ctx_failing (XRPCError InvalidResponse ''bad shape'')) ex_params
       ex_headers1
     = Inl (UpstreamFailureError ''feed provided an invalid response'' (Some ''InvalidFeedResponse''))
   \<and> skeletonFromFeedGen (ex_ctx_failing (XRPCError (OtherStatus 429) ''slow down'')) ex_params
       ex_headers1
     = Inl (XRPCError (OtherStatus 429) ''slow down'')
   \<and> skeletonFromFeedGen (ex_ctx_failing (OtherError ())) ex_params ex_headers1
     = Inl (OtherError ())"
proof -
  have pre: "getFeedGens (ex_ctx_failing e) (feed ex_params) = Inr (Some ''did:web:gen'')"
    "''did:web:gen'' \<noteq> []"
    "getIdentityByDid (ex_ctx_failing e) ''did:web:gen'' = Inr ()"
    "getServiceEndpoint (ex_ctx_failing e) () ''bsky_fg'' ''BskyFeedGenerator''
       = Some ''https://gen.example''"
    "''https://gen.example'' \<noteq> []"
    "getFeedSkeleton (ex_ctx_failing e) ''https://gen.example''
       \<lparr> feed = feed ex_params, limit = limit ex_params, cursor = cursor ex_params \<rparr>
       (forwardedHeaders ex_headers1) = Inl e" for e
    by (simp_all add: ex_ctx_failing_def ex_ctx_def ex_params_def)
  note t = skeletonFromFeedGen_error_taxonomy [OF pre]
  show ?thesis
    using t [of "UnknownFeedError (OtherStatus 400) ''no such feed''"]
      t [of "XRPCError Unknown ''fetch failed''"]
      t [of "XRPCError InvalidResponse ''bad shape''"]
      t [of "XRPCError (OtherStatus 429) ''slow down''"]
      t [of "OtherError ()"]
    by simp
qed

lemma noBlocksOrMutes_items:
  "items (noBlocksOrMutes views sk h) = filter (\<lambda>item. \<not> hidden views h item) (items sk)"
  by (auto simp: noBlocksOrMutes_def hidden_def Let_def intro: filter_cong)

text \<open>
  C5. The rules stage is a function of the skeleton and the hydration state (it has no
  collaborator to call). It keeps exactly the items that are not hidden, each as often
  as it occurs and in the order of the skeleton, and changes no other field of the
  skeleton, the cursor among them.
\<close>

theorem noBlocksOrMutes_drops_exactly_hidden:
  "items (noBlocksOrMutes views sk h) = filter (\<lambda>item. \<not> hidden views h item) (items sk)
   \<and> subseq (items (noBlocksOrMutes views sk h)) (items sk)
   \<and> set (items sk) - set (items (noBlocksOrMutes views sk h))
       = {item. item \<in> set (items sk) \<and> hidden views h item}
   \<and> noBlocksOrMutes views sk h = sk\<lparr>items := items (noBlocksOrMutes views sk h)\<rparr>
   \<and> sk_cursor (noBlocksOrMutes views sk h) = sk_cursor sk"
proof -
  have "subseq (filter (\<lambda>item. \<not> hidden views h item) (items sk)) (items sk)"
    by simp
  moreover have "noBlocksOrMutes views sk h = sk\<lparr>items := items (noBlocksOrMutes views sk h)\<rparr>"
    by (simp add: noBlocksOrMutes_def)
  moreover have "sk_cursor (noBlocksOrMutes views sk h) = sk_cursor sk"
    by (simp add: noBlocksOrMutes_def)
  ultimately show ?thesis
    unfolding noBlocksOrMutes_items by auto
qed

lemma ex_items_eq:
  "ex_items =
     [\<lparr> post = ''at://did:a/app.bsky.feed.post/1'', repost = None, feedContext = None \<rparr>,
      \<lparr> post = ''at://did:c/app.bsky.feed.post/3'',
        repost = Some ''at://did:b/app.bsky.feed.repost/2'', feedContext = Some ''ctx-b'' \<rparr>,
      \<lparr> post = ''at://did:d/app.bsky.feed.post/4'', repost = None, feedContext = None \<rparr>]"
  by (simp add: ex_items_def ex_entries_def toFeedItem_def)

text \<open>
  The scenario of the specification: of the three items the second is a repost whose
  originator the viewer has muted; the first and the third remain, in this order, in the
  skeleton and in the feed of the response, and the cursor stays.
\<close>

theorem noBlocksOrMutes_drops_exactly_hidden_witness:
  "items (noBlocksOrMutes ex_views ex_skeleton ())
     = [\<lparr> post = ''at://did:a/app.bsky.feed.post/1'', repost = None, feedContext = None \<rparr>,
        \<lparr> post = ''at://did:d/app.bsky.feed.post/4'', repost = None, feedContext = None \<rparr>]
   \<and> sk_cursor (noBlocksOrMutes ex_views ex_skeleton ()) = Some ''c1''
   \<and> body (presentation ex_views ex_params (noBlocksOrMutes ex_views ex_skeleton ()) ())
       = [''feed'' \<mapsto> Feed [(''at://did:a/app.bsky.feed.post/1'', None),
                              (''at://did:d/app.bsky.feed.post/4'', None)],
          ''cursor'' \<mapsto> Cursor (Some ''c1'')]"
proof -
  note t = noBlocksOrMutes_drops_exactly_hidden [of ex_views ex_skeleton "()"]
  have i: "items (noBlocksOrMutes ex_views ex_skeleton ())
     = [\<lparr> post = ''at://did:a/app.bsky.feed.post/1'', repost = None, feedContext = None \<rparr>,
        \<lparr> post = ''at://did:d/app.bsky.feed.post/4'', repost = None, feedContext = None \<rparr>]"
    using t by (simp add: ex_skeleton_def ex_items_eq hidden_def ex_views_def)
  have c: "sk_cursor (noBlocksOrMutes ex_views ex_skeleton ()) = Some ''c1''"
    using t by (simp add: ex_skeleton_def)
  have p: "passthrough (noBlocksOrMutes ex_views ex_skeleton ()) = Map.empty"
    by (simp add: noBlocksOrMutes_def ex_skeleton_def)
  have fv: "feedViewPost ex_views = (\<lambda>item h. Some (post item))"
    by (simp add: ex_views_def)
  have "body (presentation ex_views ex_params (noBlocksOrMutes ex_views ex_skeleton ()) ())
       = [''feed'' \<mapsto> Feed [(''at://did:a/app.bsky.feed.post/1'', None),
                              (''at://did:d/app.bsky.feed.post/4'', None)],
          ''cursor'' \<mapsto> Cursor (Some ''c1'')]"
    by (simp add: presentation_def i c p fv mapDefined_def List.map_filter_simps slice0_def
        ex_params_def)
  with i c show ?thesis by simp
qed

lemma forwardedHeaders_apply:
  "forwardedHeaders hs k =
     (if k = ''authorization'' then hs ''authorization''
      else if k = ''accept-language'' then hs ''accept-language''
      else if k = ''x-bsky-topics'' then
        (case hs ''x-bsky-topics'' of
           Some (Multi xs) \<Rightarrow> Some (Single (join '','' xs))
         | v \<Rightarrow> v)
      else None)"
  by (auto simp: forwardedHeaders_def noUndefinedVals_def List.map_filter_simps
      split: option.splits HeaderValue.splits)

text \<open>
  C8. The headers of the outbound call are a function of the incoming \<open>authorization\<close>,
  \<open>accept-language\<close> and \<open>x-bsky-topics\<close> headers alone: two requests that agree on these
  three send the same headers upstream and get the same result from
  \<open>skeletonFromFeedGen\<close> under any context, and no header of another name is sent.
\<close>

theorem forwardedHeaders_allow_list:
  assumes "hs1 ''authorization'' = hs2 ''authorization''"
    and "hs1 ''accept-language'' = hs2 ''accept-language''"
    and "hs1 ''x-bsky-topics'' = hs2 ''x-bsky-topics''"
  shows "forwardedHeaders hs1 = forwardedHeaders hs2
       \<and> skeletonFromFeedGen ctx params hs1 = skeletonFromFeedGen ctx params hs2
       \<and> dom (forwardedHeaders hs1) \<subseteq> {''authorization'', ''accept-language'', ''x-bsky-topics''}"
proof -
  have eq: "forwardedHeaders hs1 = forwardedHeaders hs2"
    by (rule ext) (simp add: forwardedHeaders_apply assms)
  have same: "skeletonFromFeedGen ctx params hs1 = skeletonFromFeedGen ctx params hs2"
    unfolding skeletonFromFeedGen_def eq by (rule refl)
  have "dom (forwardedHeaders hs1) \<subseteq> {''authorization'', ''accept-language'', ''x-bsky-topics''}"
    by (auto simp: forwardedHeaders_apply split: if_splits)
  with eq same show ?thesis
    by blast
qed

theorem forwardedHeaders_allow_list_witness:
  "forwardedHeaders ex_headers1 = forwardedHeaders ex_headers2
   \<and> ex_headers1 ''cookie'' \<noteq> ex_headers2 ''cookie''
   \<and> forwardedHeaders ex_headers1 ''cookie'' = None
   \<and> forwardedHeaders ex_headers1 ''authorization'' = Some (Single ''Bearer t'')
   \<and> forwardedHeaders ex_headers1 ''x-bsky-topics'' = Some (Single ''a,b'')
   \<and> skeletonFromFeedGen ex_ctx ex_params ex_headers1 = skeletonFromFeedGen ex_ctx ex_params ex_headers2"
proof -
  have a: "ex_headers1 ''authorization'' = ex_headers2 ''authorization''"
    "ex_headers1 ''accept-language'' = ex_headers2 ''accept-language''"
    "ex_headers1 ''x-bsky-topics'' = ex_headers2 ''x-bsky-topics''"
    by (simp_all add: ex_headers1_def ex_headers2_def)
  have b: "ex_headers1 ''cookie'' \<noteq> ex_headers2 ''cookie''"
    "forwardedHeaders ex_headers1 ''cookie'' = None"
    "forwardedHeaders ex_headers1 ''authorization'' = Some (Single ''Bearer t'')"
    "forwardedHeaders ex_headers1 ''x-bsky-topics'' = Some (Single ''a,b'')"
    by (simp_all add: forwardedHeaders_apply ex_headers1_def ex_headers2_def)
  from forwardedHeaders_allow_list [OF a, of ex_ctx ex_params] b show ?thesis
    by simp
qed

section \<open>Properties of the batch loaders\<close>

lemma foldl_upd_Some:
  "foldl (\<lambda>acc cur. acc(key cur \<mapsto> val cur)) m xs k = Some v
     \<Longrightarrow> m k = Some v \<or> (\<exists>x \<in> set xs. key x = k \<and> val x = v)"
proof (induction xs arbitrary: m)
  case Nil
  then show ?case by simp
next
  case (Cons x xs)
  from Cons.prems
  have "foldl (\<lambda>acc cur. acc(key cur \<mapsto> val cur)) (m(key x \<mapsto> val x)) xs k = Some v"
    by (simp only: foldl_Cons)
  from Cons.IH [OF this] show ?case
    by (auto split: if_splits)
qed

lemma actorRows_row:
  assumes "cur \<in> set (actorRows d dids incl)"
  shows "dh_did (fst cur) \<in> set dids
         \<and> (\<exists>rr \<in> set (t_repo_root d). rr_did rr = dh_did (fst cur)
               \<and> (incl \<or> rr_takedownId rr = None))"
  using assms by (auto simp: actorRows_def notSoftDeletedClause_def split: if_splits)

lemma postRows_row:
  assumes "r \<in> set (postRows d us req)"
  shows "uri r \<in> set us
         \<and> (\<exists>rr \<in> set (t_repo_root d). rr_did rr = creator r \<and> rr_takedownId rr = None)
         \<and> (\<exists>re \<in> set (t_record d). re_uri re = uri r \<and> re_takedownId re = None)"
proof -
  from assms obtain p rr re where
    "p \<in> set (t_post d)" "po_uri p \<in> set us" "uri r = po_uri p" "creator r = po_creator p"
    "rr \<in> set (t_repo_root d)" "rr_did rr = po_creator p" "rr_takedownId rr = None"
    "re \<in> set (t_record d)" "re_uri re = po_uri p" "re_takedownId re = None"
    by (auto simp: postRows_def notSoftDeletedClause_def split: if_splits) blast
  then show ?thesis by auto
qed

lemma selectFeedGeneratorQb_row:
  assumes "r \<in> set (selectFeedGeneratorQb d req)"
  shows "(\<exists>rr \<in> set (t_repo_root d). rr_did rr = gen_creator r \<and> rr_takedownId rr = None)
         \<and> (\<exists>re \<in> set (t_record d). re_uri re = gen_uri r \<and> re_takedownId re = None)"
proof -
  from assms obtain g rr re where
    "g \<in> set (t_feed_generator d)" "gen_uri r = fg_uri g" "gen_creator r = fg_creator g"
    "rr \<in> set (t_repo_root d)" "rr_did rr = fg_creator g" "rr_takedownId rr = None"
    "re \<in> set (t_record d)" "re_uri re = fg_uri g" "re_takedownId re = None"
    by (auto simp: selectFeedGeneratorQb_def notSoftDeletedClause_def split: if_splits) blast
  then show ?thesis by auto
qed

lemma getActorInfos_entry:
  assumes "fst (getActorInfos sv dids requester opts) k = Some a"
  shows "k \<in> set dids \<and> did a = k
         \<and> (\<exists>rr \<in> set (t_repo_root (db sv)). rr_did rr = k
               \<and> (includeSoftDeleted opts \<or> rr_takedownId rr = None))"
proof (cases "length dids < 1")
  case True
  with assms show ?thesis by (simp add: getActorInfos_def)
next
  case False
  with assms have "foldl
      (\<lambda>acc cur. acc(dh_did (fst cur) \<mapsto>
         actorInfo sv requester (skipLabels opts)
           (getLabelsForSubjects sv (if skipLabels opts then [] else dids))
           (getListMutes sv dids requester) cur))
      Map.empty (actorRows (db sv) dids (includeSoftDeleted opts)) k = Some a"
    by (simp add: getActorInfos_def Let_def)
  from foldl_upd_Some [OF this] obtain cur where
    cur: "cur \<in> set (actorRows (db sv) dids (includeSoftDeleted opts))" "dh_did (fst cur) = k"
      and a: "a = actorInfo sv requester (skipLabels opts)
           (getLabelsForSubjects sv (if skipLabels opts then [] else dids))
           (getListMutes sv dids requester) cur"
    by auto
  have "did a = k"
    unfolding a using cur(2) by (simp add: actorInfo_def Let_def)
  with actorRows_row [OF cur(1)] cur(2) show ?thesis by auto
qed

lemma getPostInfos_entry:
  assumes "fst (getPostInfos sv postUris requester) k = Some p"
  shows "k \<in> set postUris \<and> uri p = k
         \<and> (\<exists>rr \<in> set (t_repo_root (db sv)). rr_did rr = creator p \<and> rr_takedownId rr = None)
         \<and> (\<exists>re \<in> set (t_record (db sv)). re_uri re = k \<and> re_takedownId re = None)"
proof (cases "length postUris < 1")
  case True
  with assms show ?thesis by (simp add: getPostInfos_def)
next
  case False
  with assms have "foldl (\<lambda>acc cur. acc(uri cur \<mapsto> cur)) Map.empty
      (postRows (db sv) postUris requester) k = Some p"
    by (simp add: getPostInfos_def)
  from foldl_upd_Some [OF this] have "p \<in> set (postRows (db sv) postUris requester)" "uri p = k"
    by auto
  with postRows_row [of p "db sv" postUris requester] show ?thesis by auto
qed

lemma getFeedGeneratorInfos_entry:
  assumes "fst (getFeedGeneratorInfos sv generatorUris requester) k = Some g"
  shows "k \<in> set generatorUris \<and> gen_uri g = k
         \<and> (\<exists>rr \<in> set (t_repo_root (db sv)). rr_did rr = gen_creator g \<and> rr_takedownId rr = None)
         \<and> (\<exists>re \<in> set (t_record (db sv)). re_uri re = k \<and> re_takedownId re = None)"
proof (cases "length generatorUris < 1")
  case True
  with assms show ?thesis by (simp add: getFeedGeneratorInfos_def)
next
  case False
  with assms have "foldl (\<lambda>acc cur. acc(gen_uri cur \<mapsto> cur)) Map.empty
      (filter (\<lambda>g. gen_uri g \<in> set generatorUris) (selectFeedGeneratorQb (db sv) requester)) k
        = Some g"
    by (simp add: getFeedGeneratorInfos_def)
  from foldl_upd_Some [OF this]
  have "g \<in> set (selectFeedGeneratorQb (db sv) requester)" "gen_uri g \<in> set generatorUris"
    "gen_uri g = k"
    by auto
  with selectFeedGeneratorQb_row [of g "db sv" requester] show ?thesis by auto
qed

text \<open>
  C10. An entry of a map returned by \<open>getActorInfos\<close>, \<open>getPostInfos\<close> or
  \<open>getFeedGeneratorInfos\<close> stands under a requested id, is the info of that id, and comes
  from rows that passed the filter: the actor's repository is not taken down (unless
  soft-deleted actors were asked for), the post's (generator's) record and its author's
  repository are not taken down. So what the filter removes has no entry under its id.
\<close>

theorem batch_loader_keys_requested:
  "(\<forall>k a. fst (getActorInfos sv dids requester opts) k = Some a \<longrightarrow>
       k \<in> set dids \<and> did a = k
       \<and> (\<exists>rr \<in> set (t_repo_root (db sv)). rr_did rr = k
             \<and> (includeSoftDeleted opts \<or> rr_takedownId rr = None)))
   \<and> (\<forall>k p. fst (getPostInfos sv postUris requester) k = Some p \<longrightarrow>
       k \<in> set postUris \<and> uri p = k
       \<and> (\<exists>rr \<in> set (t_repo_root (db sv)). rr_did rr = creator p \<and> rr_takedownId rr = None)
       \<and> (\<exists>re \<in> set (t_record (db sv)). re_uri re = k \<and> re_takedownId re = None))
   \<and> (\<forall>k g. fst (getFeedGeneratorInfos sv generatorUris requester) k = Some g \<longrightarrow>
       k \<in> set generatorUris \<and> gen_uri g = k
       \<and> (\<exists>rr \<in> set (t_repo_root (db sv)). rr_did rr = gen_creator g \<and> rr_takedownId rr = None)
       \<and> (\<exists>re \<in> set (t_record (db sv)). re_uri re = k \<and> re_takedownId re = None))"
  using getActorInfos_entry [of sv dids requester opts]
    getPostInfos_entry [of sv postUris requester]
    getFeedGeneratorInfos_entry [of sv generatorUris requester]
  by blast

lemma ex_sv_sel:
  "db ex_sv = ex_db" "AtUri ex_sv = ex_AtUri"
  by (simp_all add: ex_sv_def)

lemma ex_getPostInfos_four:
  "fst (getPostInfos ex_sv [ex_post1, ex_post2, ex_post3, ex_gone] ex_viewer) ex_post1 \<noteq> None"
  "fst (getPostInfos ex_sv [ex_post1, ex_post2, ex_post3, ex_gone] ex_viewer) ex_post2 = None"
  "fst (getPostInfos ex_sv [ex_post1, ex_post2, ex_post3, ex_gone] ex_viewer) ex_post3 = None"
  "fst (getPostInfos ex_sv [ex_post1, ex_post2, ex_post3, ex_gone] ex_viewer) ex_gone = None"
  by (simp_all add: getPostInfos_def postRows_def ex_sv_sel ex_db_def ex_post1_def ex_post2_def
      ex_post3_def ex_gone_def leftJoin_def notSoftDeletedClause_def)

text \<open>
  Of four requested posts only the first has an entry: the second's author is taken
  down, the third's record is taken down, the fourth does not exist.
\<close>

theorem batch_loader_keys_requested_witness:
  "(\<exists>p. fst (getPostInfos ex_sv [ex_post1, ex_post2, ex_post3, ex_gone] ex_viewer) ex_post1 = Some p
        \<and> uri p = ex_post1
        \<and> (\<exists>rr \<in> set (t_repo_root (db ex_sv)). rr_did rr = creator p \<and> rr_takedownId rr = None))
   \<and> fst (getPostInfos ex_sv [ex_post1, ex_post2, ex_post3, ex_gone] ex_viewer) ex_post2 = None
   \<and> fst (getPostInfos ex_sv [ex_post1, ex_post2, ex_post3, ex_gone] ex_viewer) ex_post3 = None
   \<and> fst (getPostInfos ex_sv [ex_post1, ex_post2, ex_post3, ex_gone] ex_viewer) ex_gone = None"
proof -
  from ex_getPostInfos_four(1) obtain p where
    p: "fst (getPostInfos ex_sv [ex_post1, ex_post2, ex_post3, ex_gone] ex_viewer) ex_post1 = Some p"
    by blast
  from batch_loader_keys_requested
    [of ex_sv "[]" ex_viewer "\<lparr> skipLabels = True, includeSoftDeleted = False \<rparr>"
       "[ex_post1, ex_post2, ex_post3, ex_gone]" "[]"] p
  have "uri p = ex_post1
        \<and> (\<exists>rr \<in> set (t_repo_root (db ex_sv)). rr_did rr = creator p \<and> rr_takedownId rr = None)"
    by blast
  with p ex_getPostInfos_four(2-4) show ?thesis by blast
qed

text \<open>
  C9. With an empty list of ids each of the three loaders returns the empty map and makes
  no call; and when no post of the batch embeds a record, \<open>nestedRecordViews\<close> returns the
  empty map and makes no call.
\<close>

theorem empty_id_set_no_calls:
  "getActorInfos sv [] requester opts = (Map.empty, [])
   \<and> getPostInfos sv [] requester = (Map.empty, [])
   \<and> getFeedGeneratorInfos sv [] requester = (Map.empty, [])
   \<and> (nestedRecordUris posts = [] \<longrightarrow> nestedRecordViews sv posts requester = Inr (Map.empty, []))"
  by (simp add: getActorInfos_def getPostInfos_def getFeedGeneratorInfos_def nestedRecordViews_def)

theorem empty_id_set_no_calls_witness:
  "nestedRecordUris [ex_imagePost] = []
   \<and> nestedRecordViews ex_sv [ex_imagePost] ex_viewer = Inr (Map.empty, [])
   \<and> getActorInfos ex_sv [] ex_viewer \<lparr> skipLabels = False, includeSoftDeleted = False \<rparr>
       = (Map.empty, [])
   \<and> getPostInfos ex_sv [] ex_viewer = (Map.empty, [])
   \<and> getFeedGeneratorInfos ex_sv [] ex_viewer = (Map.empty, [])"
proof -
  have u: "nestedRecordUris [ex_imagePost] = []"
    by (simp add: ex_imagePost_def)
  from empty_id_set_no_calls
    [of ex_sv ex_viewer "\<lparr> skipLabels = False, includeSoftDeleted = False \<rparr>" "[ex_imagePost]"] u
  show ?thesis by simp
qed

section \<open>Properties of the embed resolver\<close>

lemma ex_AtUri_eval:
  "ex_AtUri ex_post1 = Some \<lparr> hostname = ''did:plc:alice'', collection = AppBskyFeedPost \<rparr>"
  "ex_AtUri ex_post5 = Some \<lparr> hostname = ''did:plc:carol'', collection = AppBskyFeedPost \<rparr>"
  "ex_AtUri ex_gone = Some \<lparr> hostname = ''did:plc:alice'', collection = AppBskyFeedPost \<rparr>"
  "ex_AtUri ex_gen = Some \<lparr> hostname = ''did:plc:alice'', collection = AppBskyFeedGenerator \<rparr>"
  by (simp_all add: ex_AtUri_def ex_post1_def ex_post5_def ex_gone_def ex_gen_def
      AppBskyFeedPost_def AppBskyFeedGenerator_def)

lemma ids_distinct:
  "AppBskyFeedPost \<noteq> AppBskyFeedGenerator" "AppBskyFeedPost \<noteq> AppBskyGraphList"
  "AppBskyFeedGenerator \<noteq> AppBskyGraphList"
  by (simp_all add: AppBskyFeedPost_def AppBskyFeedGenerator_def AppBskyGraphList_def)

lemma uris_distinct: "ex_post1 \<noteq> ex_gen" "ex_gen \<noteq> ex_post1"
  by (simp_all add: ex_post1_def ex_gen_def)

lemma nestedPartition_post:
  assumes "AtUri sv u = Some parsed" "collection parsed = AppBskyFeedPost"
  shows "nestedPartition sv (ps, fs, ls, ds) u = Inr (ps @ [u], fs, ls, setAdd (hostname parsed) ds)"
  using assms by (simp add: nestedPartition_def)

lemma nestedPartition_gen:
  assumes "AtUri sv u = Some parsed" "collection parsed = AppBskyFeedGenerator"
  shows "nestedPartition sv (ps, fs, ls, ds) u = Inr (ps, fs @ [u], ls, setAdd (hostname parsed) ds)"
  using assms ids_distinct by (simp add: nestedPartition_def)

lemma recordEmbedView_post_loaded:
  assumes "AtUri sv u = Some parsed" "collection parsed = AppBskyFeedPost" "postInfos u \<noteq> None"
  shows "recordEmbedView sv postInfos actorInfos labelViews feedGenInfos listViews acc u = Inr acc"
  using assms ids_distinct by (simp add: recordEmbedView_def)

lemma recordEmbedView_post_missing:
  assumes "AtUri sv u = Some parsed" "collection parsed = AppBskyFeedPost" "postInfos u = None"
  shows "recordEmbedView sv postInfos actorInfos labelViews feedGenInfos listViews acc u
           = Inr (acc(u \<mapsto> ViewNotFound u))"
  using assms ids_distinct by (simp add: recordEmbedView_def)

lemma recordEmbedView_gen_loaded:
  assumes "AtUri sv u = Some parsed" "collection parsed = AppBskyFeedGenerator" "feedGenInfos u = Some g"
  shows "recordEmbedView sv postInfos actorInfos labelViews feedGenInfos listViews acc u
           = Inr (acc(u \<mapsto> GeneratorView (formatFeedGeneratorView sv g actorInfos labelViews)))"
  using assms ids_distinct by (simp add: recordEmbedView_def)

lemma ex_loaded:
  "fst (getPostInfos ex_sv [ex_post1] ex_viewer) ex_post1 \<noteq> None"
  "fst (getPostInfos ex_sv [ex_post5] ex_viewer) ex_post5 \<noteq> None"
  "fst (getPostInfos ex_sv [ex_gone] ex_viewer) ex_gone = None"
  "fst (getPostInfos ex_sv [ex_post1, ex_post1] ex_viewer) ex_post1 \<noteq> None"
  by (simp_all add: getPostInfos_def postRows_def ex_sv_sel ex_db_def ex_post1_def ex_post5_def
      ex_gone_def leftJoin_def notSoftDeletedClause_def)

lemma ex_gen_loaded:
  "fst (getFeedGeneratorInfos ex_sv [ex_gen, ex_gen] ex_viewer) ex_gen \<noteq> None"
  by (simp add: getFeedGeneratorInfos_def selectFeedGeneratorQb_def ex_sv_sel ex_db_def ex_gen_def
      notSoftDeletedClause_def)

lemma calls_eval:
  "us \<noteq> [] \<Longrightarrow> snd (getPostInfos sv us r) = [Select ''post'' us]"
  "ds \<noteq> [] \<Longrightarrow> snd (getActorInfos sv ds r \<lparr> skipLabels = True, includeSoftDeleted = False \<rparr>)
     = [Select ''did_handle'' ds, GetLabelsForSubjects [], GetListMutes ds r]"
  "gs \<noteq> [] \<Longrightarrow> snd (getFeedGeneratorInfos sv gs r) = [Select ''feed_generator'' gs]"
  "snd (getFeedGeneratorInfos sv [] r) = []"
  "snd (getPostInfos sv [] r) = []"
  by (simp_all add: getPostInfos_def getActorInfos_def getFeedGeneratorInfos_def Let_def)

lemma nestedRecordViews_unfold:
  assumes "nestedRecordUris posts = us" "us \<noteq> []"
    and "forEach (nestedPartition sv) us ([], [], [], []) = Inr (ps, fs, ls, ds)"
    and "forEach
           (recordEmbedView sv (fst (getPostInfos sv ps r))
              (fst (getActorInfos sv ds r \<lparr> skipLabels = True, includeSoftDeleted = False \<rparr>))
              (getLabelsForSubjects sv (ps @ ds))
              (fst (getFeedGeneratorInfos sv fs r))
              (getListViews sv ls r))
           us Map.empty = Inr m"
  shows "nestedRecordViews sv posts r =
           Inr (m, snd (getPostInfos sv ps r)
                   @ snd (getActorInfos sv ds r \<lparr> skipLabels = True, includeSoftDeleted = False \<rparr>)
                   @ [GetLabelsForSubjects (ps @ ds)]
                   @ snd (getFeedGeneratorInfos sv fs r)
                   @ [GetListViews ls r])"
  using assms by (simp add: nestedRecordViews_def Let_def split_def del: forEach.simps)

lemma forEach_invariant:
  assumes "forEach step xs s = Inr s'" and "I s"
    and "\<And>t x t'. I t \<Longrightarrow> step t x = Inr t' \<Longrightarrow> I t'"
  shows "I s'"
  using assms(1,2)
proof (induction xs arbitrary: s)
  case Nil
  then show ?case by simp
next
  case (Cons x xs)
  from Cons.prems(1) obtain t where t: "step s x = Inr t" "forEach step xs t = Inr s'"
    by (auto split: sum.splits)
  from assms(3) [OF Cons.prems(2) t(1)] have "I t" .
  from Cons.IH [OF t(2) this] show ?case .
qed

lemma recordEmbedView_cases:
  assumes "recordEmbedView sv postInfos actorInfos labelViews feedGenInfos listViews acc u = Inr acc'"
  shows "acc' = acc \<or> (\<exists>x. acc' = acc(u \<mapsto> x) \<and> summaryOrNotFound u x)"
  using assms
  by (auto simp: recordEmbedView_def summaryOrNotFound_def Let_def split: option.splits if_splits)

lemma recordEmbedView_range:
  assumes "recordEmbedView sv postInfos actorInfos labelViews feedGenInfos listViews acc u = Inr acc'"
    and "\<forall>k v. acc k = Some v \<longrightarrow> summaryOrNotFound k v"
  shows "\<forall>k v. acc' k = Some v \<longrightarrow> summaryOrNotFound k v"
  using recordEmbedView_cases [OF assms(1)] assms(2) by (auto split: if_splits)

lemma nestedRecordViews_range:
  assumes "nestedRecordViews sv posts r = Inr (m, calls)" and "m k = Some v"
  shows "summaryOrNotFound k v"
proof (cases "length (nestedRecordUris posts) < 1")
  case True
  with assms show ?thesis by (auto simp: nestedRecordViews_def)
next
  case False
  with assms(1) obtain pI aI lV gI liV where
    "forEach (recordEmbedView sv pI aI lV gI liV) (nestedRecordUris posts) Map.empty = Inr m"
    by (auto simp: nestedRecordViews_def Let_def split_def split: sum.splits simp del: forEach.simps)
  from forEach_invariant [OF this, where I = "\<lambda>acc. \<forall>k v. acc k = Some v \<longrightarrow> summaryOrNotFound k v"]
    recordEmbedView_range [of sv pI aI lV gI liV]
  have "\<forall>k v. m k = Some v \<longrightarrow> summaryOrNotFound k v"
    by simp
  with assms(2) show ?thesis by blast
qed

lemma getRecordEmbedView_tags:
  "(getRecordEmbedView u pv embeds = ViewNotFound u) = (pv = None)"
  "(getRecordEmbedView u pv embeds = ViewBlocked u) =
     (\<exists>p. pv = Some p \<and> (\<exists>v. pvb_viewer (pv_author p) = Some v \<and> (truthy (blocking v) \<or> blockedBy v)))"
  by (auto simp: getRecordEmbedView_def split: option.splits)

lemma setAdd_distinct: "distinct xs \<Longrightarrow> distinct (setAdd x xs)"
  by (simp add: setAdd_def)

lemma hydrateFeedIds_distinct:
  assumes "hydrateFeedIds sv (a, p) item = Inr (a', p')" "distinct a" "distinct p"
  shows "distinct a' \<and> distinct p'"
  using assms
  by (auto simp: hydrateFeedIds_def Let_def setAdd_distinct split: if_splits option.splits sum.splits)

lemma hydrateFeed_ids_distinct:
  assumes "forEach (hydrateFeedIds sv) rows ([], []) = Inr (actorDids, postUris)"
  shows "distinct actorDids \<and> distinct postUris"
proof -
  from forEach_invariant [OF assms, where I = "\<lambda>s. distinct (fst s) \<and> distinct (snd s)"]
    hydrateFeedIds_distinct [of sv]
  show ?thesis by force
qed

lemma nestedPartition_dids_distinct:
  assumes "nestedPartition sv (ps, fs, ls, ds) u = Inr (ps', fs', ls', ds')" "distinct ds"
  shows "distinct ds'"
  using assms
  by (auto simp: nestedPartition_def Let_def setAdd_distinct split: option.splits if_splits)

text \<open>
  C1 (the code departs from the claim). Post 1 is loaded by \<open>getPostInfos\<close>, and a post
  that quotes it is resolved: the calls are made, but the returned map has no entry for
  the uri of post 1, where the claim asks for the materialized view of the post.
\<close>

theorem nestedRecordViews_loaded_post_without_entry:
  "fst (getPostInfos ex_sv [ex_post1] ex_viewer) ex_post1 \<noteq> None
   \<and> nestedRecordViews ex_sv [quoting ex_post1] ex_viewer =
       Inr (Map.empty,
            [Select ''post'' [ex_post1], Select ''did_handle'' [''did:plc:alice''],
             GetLabelsForSubjects [], GetListMutes [''did:plc:alice''] ex_viewer,
             GetLabelsForSubjects [ex_post1, ''did:plc:alice''], GetListViews [] ex_viewer])"
proof -
  have u: "nestedRecordUris [quoting ex_post1] = [ex_post1]"
    by (simp add: quoting_def)
  have p: "forEach (nestedPartition ex_sv) [ex_post1] ([], [], [], [])
             = Inr ([ex_post1], [], [], [''did:plc:alice''])"
    by (simp add: nestedPartition_post [of ex_sv ex_post1] ex_sv_sel ex_AtUri_eval setAdd_def)
  have l: "forEach
           (recordEmbedView ex_sv (fst (getPostInfos ex_sv [ex_post1] ex_viewer)) a lv g li)
           [ex_post1] Map.empty = Inr Map.empty" for a lv g li
    using ex_loaded(1)
    by (simp add: recordEmbedView_post_loaded [of ex_sv ex_post1] ex_sv_sel ex_AtUri_eval)
  from nestedRecordViews_unfold [OF u _ p l] ex_loaded(1) show ?thesis
    by (simp add: calls_eval)
qed

lemma ex_actor_carol:
  "\<exists>a. fst (getActorInfos ex_sv [''did:plc:carol''] ex_viewer
              \<lparr> skipLabels = True, includeSoftDeleted = False \<rparr>) ''did:plc:carol'' = Some a
       \<and> blockedBy (viewer a)"
  by (simp add: getActorInfos_def actorRows_def actorInfo_def ex_sv_sel ex_db_def ex_viewer_def
      leftJoin_def notSoftDeletedClause_def scalarSubquery_def Let_def)

text \<open>
  C2 (the code departs from the claim). Carol blocks the viewer, and her post 5 is loaded.
  A post that quotes post 5 is resolved without an entry for it: the view is not tagged
  blocked, although \<open>getRecordEmbedView\<close> would tag it so. The same missing assignment in
  the branch of a loaded post is behind C1.
\<close>

theorem nestedRecordViews_blocked_author_untagged:
  "(\<exists>a. fst (getActorInfos ex_sv [''did:plc:carol''] ex_viewer
              \<lparr> skipLabels = True, includeSoftDeleted = False \<rparr>) ''did:plc:carol'' = Some a
       \<and> blockedBy (viewer a))
   \<and> fst (getPostInfos ex_sv [ex_post5] ex_viewer) ex_post5 \<noteq> None
   \<and> nestedRecordViews ex_sv [quoting ex_post5] ex_viewer =
       Inr (Map.empty,
            [Select ''post'' [ex_post5], Select ''did_handle'' [''did:plc:carol''],
             GetLabelsForSubjects [], GetListMutes [''did:plc:carol''] ex_viewer,
             GetLabelsForSubjects [ex_post5, ''did:plc:carol''], GetListViews [] ex_viewer])"
proof -
  have u: "nestedRecordUris [quoting ex_post5] = [ex_post5]"
    by (simp add: quoting_def)
  have p: "forEach (nestedPartition ex_sv) [ex_post5] ([], [], [], [])
             = Inr ([ex_post5], [], [], [''did:plc:carol''])"
    by (simp add: nestedPartition_post [of ex_sv ex_post5] ex_sv_sel ex_AtUri_eval setAdd_def)
  have l: "forEach
           (recordEmbedView ex_sv (fst (getPostInfos ex_sv [ex_post5] ex_viewer)) a lv g li)
           [ex_post5] Map.empty = Inr Map.empty" for a lv g li
    using ex_loaded(2)
    by (simp add: recordEmbedView_post_loaded [of ex_sv ex_post5] ex_sv_sel ex_AtUri_eval)
  from nestedRecordViews_unfold [OF u _ p l] ex_loaded(2) ex_actor_carol show ?thesis
    by (simp add: calls_eval)
qed

text \<open>
  The part of C2 that the code keeps: a quoted post that is gone (it is not loaded) gets
  the not-found view, and the request does not fail.
\<close>

lemma nestedRecordViews_deleted_post_not_found:
  "nestedRecordViews ex_sv [quoting ex_gone] ex_viewer =
     Inr ([ex_gone \<mapsto> ViewNotFound ex_gone],
          [Select ''post'' [ex_gone], Select ''did_handle'' [''did:plc:alice''],
           GetLabelsForSubjects [], GetListMutes [''did:plc:alice''] ex_viewer,
           GetLabelsForSubjects [ex_gone, ''did:plc:alice''], GetListViews [] ex_viewer])"
proof -
  have u: "nestedRecordUris [quoting ex_gone] = [ex_gone]"
    by (simp add: quoting_def)
  have p: "forEach (nestedPartition ex_sv) [ex_gone] ([], [], [], [])
             = Inr ([ex_gone], [], [], [''did:plc:alice''])"
    by (simp add: nestedPartition_post [of ex_sv ex_gone] ex_sv_sel ex_AtUri_eval setAdd_def)
  have l: "forEach
           (recordEmbedView ex_sv (fst (getPostInfos ex_sv [ex_gone] ex_viewer)) a lv g li)
           [ex_gone] Map.empty = Inr [ex_gone \<mapsto> ViewNotFound ex_gone]" for a lv g li
    using ex_loaded(3)
    by (simp add: recordEmbedView_post_missing [of ex_sv ex_gone] ex_sv_sel ex_AtUri_eval)
  from nestedRecordViews_unfold [OF u _ p l] show ?thesis
    by (simp add: calls_eval)
qed

text \<open>
  C7 (the code departs from the claim). Two posts quote post 1 and two quote alice's feed
  generator. The dids go through a \<open>Set\<close>, but the uris do not: the queries on \<open>post\<close>
  and \<open>feed_generator\<close> and the label lookup receive each uri twice.
\<close>

theorem nestedRecordViews_passes_duplicates:
  "nestedRecordViews ex_sv [quoting ex_post1, quoting ex_gen, quoting ex_post1, quoting ex_gen]
       ex_viewer =
     Inr ([ex_gen \<mapsto> GeneratorView ''generator''],
          [Select ''post'' [ex_post1, ex_post1], Select ''did_handle'' [''did:plc:alice''],
           GetLabelsForSubjects [], GetListMutes [''did:plc:alice''] ex_viewer,
           GetLabelsForSubjects [ex_post1, ex_post1, ''did:plc:alice''],
           Select ''feed_generator'' [ex_gen, ex_gen], GetListViews [] ex_viewer])
   \<and> \<not> distinct [ex_post1, ex_post1] \<and> \<not> distinct [ex_gen, ex_gen]"
proof -
  have u: "nestedRecordUris [quoting ex_post1, quoting ex_gen, quoting ex_post1, quoting ex_gen]
             = [ex_post1, ex_gen, ex_post1, ex_gen]"
    by (simp add: quoting_def)
  have p: "forEach (nestedPartition ex_sv) [ex_post1, ex_gen, ex_post1, ex_gen] ([], [], [], [])
             = Inr ([ex_post1, ex_post1], [ex_gen, ex_gen], [], [''did:plc:alice''])"
    by (simp add: nestedPartition_post [of ex_sv ex_post1] nestedPartition_gen [of ex_sv ex_gen]
        ex_sv_sel ex_AtUri_eval setAdd_def)
  have f: "formatFeedGeneratorView ex_sv g a lv = ''generator''" for g a lv
    by (simp add: ex_sv_def)
  from ex_gen_loaded obtain g where
    g: "fst (getFeedGeneratorInfos ex_sv [ex_gen, ex_gen] ex_viewer) ex_gen = Some g"
    by blast
  have l: "forEach
           (recordEmbedView ex_sv (fst (getPostInfos ex_sv [ex_post1, ex_post1] ex_viewer)) a lv
              (fst (getFeedGeneratorInfos ex_sv [ex_gen, ex_gen] ex_viewer)) li)
           [ex_post1, ex_gen, ex_post1, ex_gen] Map.empty
           = Inr [ex_gen \<mapsto> GeneratorView ''generator'']" for a lv li
    using ex_loaded(4) g
    by (simp add: recordEmbedView_post_loaded [of ex_sv ex_post1]
        recordEmbedView_gen_loaded [of ex_sv ex_gen] ex_sv_sel ex_AtUri_eval f)
  from nestedRecordViews_unfold [OF u _ p l] show ?thesis
    by (simp add: calls_eval)
qed

text \<open>
  Since \<open>postRecordsFromInfos\<close> returns the empty object, \<open>embedsForPosts\<close> returns no
  views and makes no call, whatever posts it is given.
\<close>

lemma embedsForPosts_stub:
  "embedsForPosts sv postInfos r excludeNested = Inr (Map.empty, [])"
  by (simp add: embedsForPosts_def postRecordsFromInfos_def)

text \<open>
  The part of C7 that the code keeps: the dids and uris that \<open>hydrateFeed\<close> collects go
  through a \<open>Set\<close> each, and so do the dids of \<open>nestedRecordViews\<close>.
\<close>

lemma hydrateFeed_calls:
  assumes "hydrateFeed sv rows r un = Inr (out, calls)"
  shows "\<exists>actorDids postUris.
           distinct actorDids \<and> distinct postUris
           \<and> calls = snd (getActorInfos sv actorDids r \<lparr> skipLabels = True, includeSoftDeleted = False \<rparr>)
                     @ snd (getPostInfos sv postUris r)
                     @ [GetLabelsForSubjects (postUris @ actorDids)]"
proof -
  from assms obtain actorDids postUris where
    ids: "forEach (hydrateFeedIds sv) rows ([], []) = Inr (actorDids, postUris)"
    by (auto simp: hydrateFeed_def split: sum.splits simp del: forEach.simps)
  from assms ids embedsForPosts_stub [of sv _ r False]
  have "calls = snd (getActorInfos sv actorDids r \<lparr> skipLabels = True, includeSoftDeleted = False \<rparr>)
                  @ snd (getPostInfos sv postUris r)
                  @ [GetLabelsForSubjects (postUris @ actorDids)]"
    by (auto simp: hydrateFeed_def Let_def split_def simp del: forEach.simps)
  with hydrateFeed_ids_distinct [OF ids] show ?thesis by blast
qed

section \<open>Properties of the truncation\<close>

lemma mod_off: "q < m \<Longrightarrow> (k * m + q) mod m = (q::nat)"
  by simp

lemma lead_mod:
  "q < 32 \<Longrightarrow> (192 + q) mod 32 = (q::nat)"
  "q < 16 \<Longrightarrow> (224 + q) mod 16 = (q::nat)"
  "q < 8 \<Longrightarrow> (240 + q) mod 8 = (q::nat)"
  "q < 64 \<Longrightarrow> (128 + q) mod 64 = (q::nat)"
  using mod_off [of q 32 6] mod_off [of q 16 14] mod_off [of q 8 30] mod_off [of q 64 2]
  by simp_all

lemma dec_ascii: "c < 128 \<Longrightarrow> decoder0 (c # rest) = c # decoder0 rest"
  by simp

lemma dec_two:
  assumes "2 \<le> q" "q < 32" "r < 64"
  shows "decoder0 ((192 + q) # (128 + r) # rest) = (q * 64 + r) # decoder0 rest"
  using assms by (simp add: lead_mod)

lemma lead_three:
  assumes "q < 16"
  shows "decoder0 ((224 + q) # bs) =
    decoder q 2 (if q = 0 then 0xA0 else 0x80) (if q = 13 then 0x9F else 0xBF) bs"
  using assms by (simp add: lead_mod)

lemma lead_four:
  assumes "q < 5"
  shows "decoder0 ((240 + q) # bs) =
    decoder q 3 (if q = 0 then 0x90 else 0x80) (if q = 4 then 0x8F else 0xBF) bs"
  using assms by (simp add: lead_mod)

lemma continue_third:
  assumes "r < 64" "lo \<le> 128 + r" "128 + r \<le> hi"
  shows "decoder cp 3 lo hi ((128 + r) # bs) = decoder (cp * 64 + r) 2 0x80 0xBF bs"
  using assms by (simp add: lead_mod)

lemma continue_second:
  assumes "r < 64" "lo \<le> 128 + r" "128 + r \<le> hi"
  shows "decoder cp 2 lo hi ((128 + r) # bs) = decoder (cp * 64 + r) 1 0x80 0xBF bs"
  using assms by (simp add: lead_mod)

lemma continue_last:
  assumes "r < 64" "lo \<le> 128 + r" "128 + r \<le> hi"
  shows "decoder cp 1 lo hi ((128 + r) # bs) = (cp * 64 + r) # decoder0 bs"
  using assms by (simp add: lead_mod)

lemma dec_three:
  assumes "q < 16" "r1 < 64" "r0 < 64" "q = 0 \<longrightarrow> 32 \<le> r1" "q = 13 \<longrightarrow> r1 < 32"
  shows "decoder0 ((224 + q) # (128 + r1) # (128 + r0) # rest) = ((q * 64 + r1) * 64 + r0) # decoder0 rest"
proof -
  have a: "(if q = 0 then 0xA0 else 0x80) \<le> 128 + r1" "128 + r1 \<le> (if q = 13 then 0x9F else 0xBF)"
    using assms by auto
  have b: "(0x80::nat) \<le> 128 + r0" "128 + r0 \<le> (0xBF::nat)"
    using assms by auto
  show ?thesis
    by (simp only: lead_three [OF assms(1)] continue_second [OF assms(2) a] continue_last [OF assms(3) b])
qed

lemma dec_four:
  assumes "q < 5" "r2 < 64" "r1 < 64" "r0 < 64" "q = 0 \<longrightarrow> 16 \<le> r2" "q = 4 \<longrightarrow> r2 < 16"
  shows "decoder0 ((240 + q) # (128 + r2) # (128 + r1) # (128 + r0) # rest)
           = (((q * 64 + r2) * 64 + r1) * 64 + r0) # decoder0 rest"
proof -
  have a: "(if q = 0 then 0x90 else 0x80) \<le> 128 + r2" "128 + r2 \<le> (if q = 4 then 0x8F else 0xBF)"
    using assms by auto
  have b: "(0x80::nat) \<le> 128 + r1" "128 + r1 \<le> (0xBF::nat)"
    "(0x80::nat) \<le> 128 + r0" "128 + r0 \<le> (0xBF::nat)"
    using assms by auto
  show ?thesis
    by (simp only: lead_four [OF assms(1)] continue_third [OF assms(2) a] continue_second [OF assms(3) b(1,2)]
        continue_last [OF assms(4) b(3,4)])
qed

text \<open>Unfinished sequences at the end of the input.\<close>

lemma cut_two: "2 \<le> q \<Longrightarrow> q < 32 \<Longrightarrow> decoder0 [192 + q] = [0xFFFD]"
  by (simp add: lead_mod)

lemma cut_three:
  assumes "q < 16" "r1 < 64" "q = 0 \<longrightarrow> 32 \<le> r1" "q = 13 \<longrightarrow> r1 < 32"
  shows "decoder0 [224 + q] = [0xFFFD]" "decoder0 [224 + q, 128 + r1] = [0xFFFD]"
proof -
  have a: "(if q = 0 then 0xA0 else 0x80) \<le> 128 + r1" "128 + r1 \<le> (if q = 13 then 0x9F else 0xBF)"
    using assms by auto
  show "decoder0 [224 + q] = [0xFFFD]"
    by (simp only: lead_three [OF assms(1)]) simp
  show "decoder0 [224 + q, 128 + r1] = [0xFFFD]"
    by (simp only: lead_three [OF assms(1)] continue_second [OF assms(2) a]) simp
qed

lemma cut_four:
  assumes "q < 5" "r2 < 64" "r1 < 64" "q = 0 \<longrightarrow> 16 \<le> r2" "q = 4 \<longrightarrow> r2 < 16"
  shows "decoder0 [240 + q] = [0xFFFD]" "decoder0 [240 + q, 128 + r2] = [0xFFFD]"
    "decoder0 [240 + q, 128 + r2, 128 + r1] = [0xFFFD]"
proof -
  have a: "(if q = 0 then 0x90 else 0x80) \<le> 128 + r2" "128 + r2 \<le> (if q = 4 then 0x8F else 0xBF)"
    using assms by auto
  have b: "(0x80::nat) \<le> 128 + r1" "128 + r1 \<le> (0xBF::nat)"
    using assms by auto
  show "decoder0 [240 + q] = [0xFFFD]"
    by (simp only: lead_four [OF assms(1)]) simp
  show "decoder0 [240 + q, 128 + r2] = [0xFFFD]"
    by (simp only: lead_four [OF assms(1)] continue_third [OF assms(2) a]) simp
  show "decoder0 [240 + q, 128 + r2, 128 + r1] = [0xFFFD]"
    by (simp only: lead_four [OF assms(1)] continue_third [OF assms(2) a] continue_second [OF assms(3) b]) simp
qed



lemma bytes2:
  assumes "0x80 \<le> c" "c < 0x800"
  shows "\<exists>q r. utf8_bytes c = [192 + q, 128 + r] \<and> 2 \<le> q \<and> q < 32 \<and> r < 64 \<and> q * 64 + r = c"
proof -
  define r where "r = c mod 64"
  define q where "q = c div 64"
  have c: "c = q * 64 + r" "r < 64" by (simp_all add: r_def q_def)
  have u: "utf8_bytes c = [192 + q, 128 + r]"
    using assms by (simp add: utf8_bytes_def q_def r_def)
  have "2 \<le> q" "q < 32" using assms c by linarith+
  with u c show ?thesis by auto
qed

lemma bytes3:
  assumes "0x800 \<le> c" "c < 0x10000" "\<not> (0xD800 \<le> c \<and> c \<le> 0xDFFF)"
  shows "\<exists>q r1 r0. utf8_bytes c = [224 + q, 128 + r1, 128 + r0] \<and> q < 16 \<and> r1 < 64 \<and> r0 < 64
           \<and> (q = 0 \<longrightarrow> 32 \<le> r1) \<and> (q = 13 \<longrightarrow> r1 < 32) \<and> (q * 64 + r1) * 64 + r0 = c"
proof -
  define r0 where "r0 = c mod 64"
  define q1 where "q1 = c div 64"
  define r1 where "r1 = q1 mod 64"
  define q where "q = q1 div 64"
  have c: "c = q1 * 64 + r0" "r0 < 64" by (simp_all add: r0_def q1_def)
  have q1: "q1 = q * 64 + r1" "r1 < 64" by (simp_all add: r1_def q_def)
  have d: "c div 4096 = q" using div_mult2_eq [of c 64 64] by (simp add: q_def q1_def)
  have u: "utf8_bytes c = [224 + q, 128 + r1, 128 + r0]"
    using assms by (simp add: utf8_bytes_def d) (simp add: r1_def q1_def r0_def)
  have "q < 16" using assms c q1 by linarith
  moreover have "q = 0 \<longrightarrow> 32 \<le> r1" using assms c q1 by auto
  moreover have "q = 13 \<longrightarrow> r1 < 32" using assms c q1 by auto
  moreover have "(q * 64 + r1) * 64 + r0 = c" using c q1 by simp
  ultimately show ?thesis using u c q1 by blast
qed

lemma bytes4:
  assumes "0x10000 \<le> c" "c \<le> 0x10FFFF"
  shows "\<exists>q r2 r1 r0. utf8_bytes c = [240 + q, 128 + r2, 128 + r1, 128 + r0] \<and> q < 5 \<and> r2 < 64
           \<and> r1 < 64 \<and> r0 < 64 \<and> (q = 0 \<longrightarrow> 16 \<le> r2) \<and> (q = 4 \<longrightarrow> r2 < 16)
           \<and> ((q * 64 + r2) * 64 + r1) * 64 + r0 = c"
proof -
  define r0 where "r0 = c mod 64"
  define q1 where "q1 = c div 64"
  define r1 where "r1 = q1 mod 64"
  define q2 where "q2 = q1 div 64"
  define r2 where "r2 = q2 mod 64"
  define q where "q = q2 div 64"
  have c: "c = q1 * 64 + r0" "r0 < 64" by (simp_all add: r0_def q1_def)
  have q1: "q1 = q2 * 64 + r1" "r1 < 64" by (simp_all add: r1_def q2_def)
  have q2: "q2 = q * 64 + r2" "r2 < 64" by (simp_all add: r2_def q_def)
  have d2: "c div 4096 = q2" using div_mult2_eq [of c 64 64] by (simp add: q2_def q1_def)
  have d3: "c div 262144 = q" using div_mult2_eq [of c 4096 64] by (simp add: d2 q_def)
  have u: "utf8_bytes c = [240 + q, 128 + r2, 128 + r1, 128 + r0]"
    using assms by (simp add: utf8_bytes_def d2 d3) (simp add: r2_def r1_def q1_def r0_def)
  have "q < 5" using assms c q1 q2 by linarith
  moreover have "q = 0 \<longrightarrow> 16 \<le> r2" using assms c q1 q2 by auto
  moreover have "q = 4 \<longrightarrow> r2 < 16" using assms c q1 q2 by auto
  moreover have "((q * 64 + r2) * 64 + r1) * 64 + r0 = c" using c q1 q2 by simp
  ultimately show ?thesis using u c q1 q2 by blast
qed

lemma decoder_char:
  assumes "scalarValue c"
  shows "decoder0 (utf8_bytes c @ rest) = c # decoder0 rest"
proof -
  consider "c < 0x80" | "0x80 \<le> c" "c < 0x800" | "0x800 \<le> c" "c < 0x10000"
    | "0x10000 \<le> c"
    by linarith
  then show ?thesis
  proof cases
    case 1
    then show ?thesis by (simp add: utf8_bytes_def)
  next
    case 2
    from bytes2 [OF 2] obtain q r where
      "utf8_bytes c = [192 + q, 128 + r]" "2 \<le> q" "q < 32" "r < 64" "q * 64 + r = c"
      by blast
    then show ?thesis using dec_two [of q r rest] by simp
  next
    case 3
    from bytes3 [OF 3] assms obtain q r1 r0 where
      "utf8_bytes c = [224 + q, 128 + r1, 128 + r0]" "q < 16" "r1 < 64" "r0 < 64"
      "q = 0 \<longrightarrow> 32 \<le> r1" "q = 13 \<longrightarrow> r1 < 32" "(q * 64 + r1) * 64 + r0 = c"
      unfolding scalarValue_def by blast
    then show ?thesis using dec_three [of q r1 r0 rest] by simp
  next
    case 4
    from bytes4 [OF 4] assms obtain q r2 r1 r0 where
      "utf8_bytes c = [240 + q, 128 + r2, 128 + r1, 128 + r0]" "q < 5" "r2 < 64" "r1 < 64" "r0 < 64"
      "q = 0 \<longrightarrow> 16 \<le> r2" "q = 4 \<longrightarrow> r2 < 16" "((q * 64 + r2) * 64 + r1) * 64 + r0 = c"
      unfolding scalarValue_def by blast
    then show ?thesis using dec_four [of q r2 r1 r0 rest] by simp
  qed
qed

lemma decoder_partial:
  assumes "scalarValue c" "0 < n" "n < length (utf8_bytes c)"
  shows "decoder0 (take n (utf8_bytes c)) = [0xFFFD]"
proof -
  consider "c < 0x80" | "0x80 \<le> c" "c < 0x800" | "0x800 \<le> c" "c < 0x10000"
    | "0x10000 \<le> c"
    by linarith
  then show ?thesis
  proof cases
    case 1
    with assms show ?thesis by (simp add: utf8_bytes_def)
  next
    case 2
    from bytes2 [OF 2] obtain q r where
      u: "utf8_bytes c = [192 + q, 128 + r]" and q: "2 \<le> q" "q < 32"
      by blast
    from assms(2,3) u have "n = 1" by simp
    then show ?thesis using u cut_two [OF q] by simp
  next
    case 3
    from bytes3 [OF 3] assms(1) obtain q r1 r0 where
      u: "utf8_bytes c = [224 + q, 128 + r1, 128 + r0]"
      and q: "q < 16" "r1 < 64" "q = 0 \<longrightarrow> 32 \<le> r1" "q = 13 \<longrightarrow> r1 < 32"
      unfolding scalarValue_def by blast
    from assms(2,3) u have "n = 1 \<or> n = 2" by auto
    then show ?thesis using u cut_three [OF q] by (auto simp: numeral_2_eq_2)
  next
    case 4
    from bytes4 [OF 4] assms(1) obtain q r2 r1 r0 where
      u: "utf8_bytes c = [240 + q, 128 + r2, 128 + r1, 128 + r0]"
      and q: "q < 5" "r2 < 64" "r1 < 64" "q = 0 \<longrightarrow> 16 \<le> r2" "q = 4 \<longrightarrow> r2 < 16"
      unfolding scalarValue_def by blast
    from assms(2,3) u have "n = 1 \<or> n = 2 \<or> n = 3" by auto
    then show ?thesis using u cut_four [OF q] by (auto simp: numeral_2_eq_2 numeral_3_eq_3)
  qed
qed

lemma scalar_valid: "c \<le> 0x10FFFF \<Longrightarrow> scalarValue (scalar c)"
  by (simp add: scalarValue_def scalar_def)

lemma scalar_idem: "scalar (scalar c) = scalar c"
  by (simp add: scalar_def)

lemma utf8_bytes_length: "0 < length (utf8_bytes c)"
  by (simp add: utf8_bytes_def)

lemma encode_simps:
  "encode [] = []"
  "encode (c # cs) = utf8_bytes (scalar c) @ encode cs"
  "encode (xs @ ys) = encode xs @ encode ys"
  by (simp_all add: encode_def)

lemma encode_map_scalar: "encode (map scalar s) = encode s"
  by (induction s) (simp_all add: encode_simps scalar_idem)

lemma dec_nil: "decoder0 [] = []"
  by simp

lemma decoder_take:
  assumes "wf_text s"
  shows "\<exists>k. k \<le> length s \<and> length (encode (take k s)) \<le> n
           \<and> (decoder0 (take n (encode s)) = map scalar (take k s)
                \<or> decoder0 (take n (encode s)) = map scalar (take k s) @ [0xFFFD])"
  using assms
proof (induction s arbitrary: n)
  case Nil
  show ?case by (simp add: encode_simps)
next
  case (Cons c cs)
  let ?b = "utf8_bytes (scalar c)"
  from Cons.prems have v: "scalarValue (scalar c)" and wf: "wf_text cs"
    by (simp_all add: wf_text_def scalar_valid)
  consider "length ?b \<le> n" | "n = 0" | "0 < n" "n < length ?b"
    by linarith
  then show ?case
  proof cases
    case 1
    from Cons.IH [OF wf, of "n - length ?b"] obtain k where
      k: "k \<le> length cs" "length (encode (take k cs)) \<le> n - length ?b"
      and d: "decoder0 (take (n - length ?b) (encode cs)) = map scalar (take k cs)
              \<or> decoder0 (take (n - length ?b) (encode cs)) = map scalar (take k cs) @ [0xFFFD]"
      by blast
    have t: "take n (encode (c # cs)) = ?b @ take (n - length ?b) (encode cs)"
      using 1 by (simp add: encode_simps)
    have "decoder0 (take n (encode (c # cs))) = scalar c # decoder0 (take (n - length ?b) (encode cs))"
      unfolding t by (rule decoder_char [OF v])
    with d have "decoder0 (take n (encode (c # cs))) = map scalar (take (Suc k) (c # cs))
        \<or> decoder0 (take n (encode (c # cs))) = map scalar (take (Suc k) (c # cs)) @ [0xFFFD]"
      by auto
    moreover have "length (encode (take (Suc k) (c # cs))) \<le> n"
      using k(2) 1 by (simp add: encode_simps)
    moreover have "Suc k \<le> length (c # cs)"
      using k(1) by simp
    ultimately show ?thesis by blast
  next
    case 2
    have "decoder0 (take n (encode (c # cs))) = map scalar (take 0 (c # cs))"
      using 2 by simp
    moreover have "length (encode (take 0 (c # cs))) \<le> n"
      by (simp add: encode_simps)
    ultimately show ?thesis by blast
  next
    case 3
    have t: "take n (encode (c # cs)) = take n ?b"
      using 3 by (simp add: encode_simps)
    have "decoder0 (take n (encode (c # cs))) = map scalar (take 0 (c # cs)) @ [0xFFFD]"
      unfolding t using decoder_partial [OF v 3] by simp
    moreover have "length (encode (take 0 (c # cs))) \<le> n"
      by (simp add: encode_simps)
    ultimately show ?thesis by blast
  qed
qed

lemma scalar_not_BOM_FFFD: "(0xFFFD::nat) \<noteq> 0xFEFF"
  by simp

lemma stripBOM_snoc: "stripBOM (xs @ [0xFFFD]) = stripBOM xs @ [0xFFFD] \<or> (xs = [0xFEFF] \<and> stripBOM (xs @ [0xFFFD]) = [0xFFFD])"
  by (cases xs) (auto simp: stripBOM_def)

lemma replace_stripBOM_snoc:
  "replaceTrailingFFFD (stripBOM (xs @ [0xFFFD])) = stripBOM xs"
  by (cases xs) (auto simp: stripBOM_def replaceTrailingFFFD_def)

lemma replace_stripBOM:
  "replaceTrailingFFFD (stripBOM xs) = stripBOM xs
   \<or> replaceTrailingFFFD (stripBOM xs) = stripBOM (butlast xs)"
proof (cases xs)
  case Nil
  then show ?thesis by (simp add: stripBOM_def replaceTrailingFFFD_def)
next
  case (Cons c cs)
  then show ?thesis
    by (cases cs) (auto simp: stripBOM_def replaceTrailingFFFD_def)
qed

lemma length_encode_stripBOM: "length (encode (stripBOM xs)) \<le> length (encode xs)"
  by (cases xs) (auto simp: stripBOM_def encode_simps)

lemma length_encode_take_mono: "j \<le> k \<Longrightarrow> length (encode (take j s)) \<le> length (encode (take k s))"
proof -
  assume "j \<le> k"
  then have "take k s = take j s @ take (k - j) (drop j s)"
    by (metis le_add_diff_inverse take_add)
  then show ?thesis by (simp add: encode_simps)
qed

lemma set_stripBOM: "set (stripBOM xs) \<subseteq> set xs"
  by (cases xs) (auto simp: stripBOM_def)

lemma truncated_form:
  assumes "wf_text s"
  shows "\<exists>k. k \<le> length s \<and> length (encode (take k s)) \<le> n
           \<and> replaceTrailingFFFD (decode (take n (encode s))) = stripBOM (map scalar (take k s))"
proof -
  from decoder_take [OF assms, of n] obtain k where
    k: "k \<le> length s" "length (encode (take k s)) \<le> n"
    and d: "decoder0 (take n (encode s)) = map scalar (take k s)
            \<or> decoder0 (take n (encode s)) = map scalar (take k s) @ [0xFFFD]"
    by blast
  from d show ?thesis
  proof
    assume e: "decoder0 (take n (encode s)) = map scalar (take k s) @ [0xFFFD]"
    have "replaceTrailingFFFD (decode (take n (encode s))) = stripBOM (map scalar (take k s))"
      unfolding decode_def e by (rule replace_stripBOM_snoc)
    with k show ?thesis by blast
  next
    assume e: "decoder0 (take n (encode s)) = map scalar (take k s)"
    from replace_stripBOM [of "map scalar (take k s)"]
    show ?thesis
    proof
      assume "replaceTrailingFFFD (stripBOM (map scalar (take k s))) = stripBOM (map scalar (take k s))"
      with k e show ?thesis unfolding decode_def by auto
    next
      assume r: "replaceTrailingFFFD (stripBOM (map scalar (take k s)))
                  = stripBOM (butlast (map scalar (take k s)))"
      have b: "butlast (map scalar (take k s)) = map scalar (take (k - 1) s)"
        using k(1) by (simp add: map_butlast [symmetric] butlast_take)
      have "length (encode (take (k - 1) s)) \<le> n"
        using length_encode_take_mono [of "k - 1" k s] k(2) by simp
      moreover have "k - 1 \<le> length s" using k(1) by simp
      ultimately show ?thesis
        using e r b unfolding decode_def by auto
    qed
  qed
qed

lemma truncateUtf8_result:
  assumes "wf_text s"
  shows "\<exists>r. truncateUtf8 (Some s) n = Some r
           \<and> length (encode r) \<le> n
           \<and> (length (encode s) \<le> n \<longrightarrow> r = s)
           \<and> (n < length (encode s) \<longrightarrow> (\<exists>k \<le> length s. r = stripBOM (map scalar (take k s))))
           \<and> (0xFFFD \<notin> set (map scalar s) \<longrightarrow> 0xFFFD \<notin> set r)"
proof (cases "n < length (encode s)")
  case False
  then have r: "truncateUtf8 (Some s) n = Some s"
    by (simp add: truncateUtf8_def Let_def)
  have "0xFFFD \<notin> set (map scalar s) \<Longrightarrow> 0xFFFD \<notin> set s"
    by (auto simp: scalar_def image_iff split: if_splits)
  with r False show ?thesis by auto
next
  case True
  then have ne: "s \<noteq> []" by (auto simp: encode_simps)
  from truncated_form [OF assms, of n] obtain k where
    k: "k \<le> length s" "length (encode (take k s)) \<le> n"
    and f: "replaceTrailingFFFD (decode (take n (encode s))) = stripBOM (map scalar (take k s))"
    by blast
  have r: "truncateUtf8 (Some s) n = Some (stripBOM (map scalar (take k s)))"
    using True ne f by (simp add: truncateUtf8_def Let_def)
  have "length (encode (stripBOM (map scalar (take k s)))) \<le> length (encode (map scalar (take k s)))"
    by (rule length_encode_stripBOM)
  with k(2) have l: "length (encode (stripBOM (map scalar (take k s)))) \<le> n"
    by (simp add: encode_map_scalar)
  have "set (stripBOM (map scalar (take k s))) \<subseteq> set (map scalar s)"
    using set_stripBOM [of "map scalar (take k s)"] set_take_subset [of k s] by auto
  with r l k(1) True show ?thesis by auto
qed

text \<open>
  C6, amended. For a string \<open>s\<close> and a budget of \<open>n\<close> bytes, \<open>truncateUtf8\<close> returns a string
  whose encoding has at most \<open>n\<close> bytes. A string whose encoding has at most \<open>n\<close> bytes is
  returned as it is. Otherwise the result is made of the first \<open>k\<close> code points of \<open>s\<close>,
  whole, for some \<open>k\<close> (as the decoder gives them: an unpaired surrogate read as
  \<open>U+FFFD\<close>, a byte order mark at the start left out), so no code point is split and the
  replacement character that the cut produced is gone. The result holds a replacement
  character only if \<open>s\<close> holds one, or an unpaired surrogate.
\<close>

theorem truncateUtf8_safe:
  assumes "wf_text s"
  shows "\<exists>r. truncateUtf8 (Some s) n = Some r
           \<and> length (encode r) \<le> n
           \<and> (length (encode s) \<le> n \<longrightarrow> r = s)
           \<and> (n < length (encode s) \<longrightarrow> (\<exists>k \<le> length s. r = stripBOM (map scalar (take k s))))
           \<and> (0xFFFD \<notin> set (map scalar s) \<longrightarrow> 0xFFFD \<notin> set r)"
  by (rule truncateUtf8_result [OF assms])

text \<open>
  The letter A, the euro sign (three bytes) and an emoji (four bytes), cut at six bytes:
  the two bytes of the emoji that remain are dropped.
\<close>

theorem truncateUtf8_safe_witness:
  "wf_text [0x41, 0x20AC, 0x1F600]
   \<and> length (encode [0x41, 0x20AC, 0x1F600]) = 8
   \<and> truncateUtf8 (Some [0x41, 0x20AC, 0x1F600]) 6 = Some [0x41, 0x20AC]
   \<and> length (encode [0x41, 0x20AC]) \<le> 6"
proof -
  have w: "wf_text [0x41, 0x20AC, 0x1F600]"
    by (simp add: wf_text_def)
  have e: "truncateUtf8 (Some [0x41, 0x20AC, 0x1F600]) 6 = Some [0x41, 0x20AC]"
    "length (encode [0x41, 0x20AC, 0x1F600]) = 8"
    by (simp_all add: truncateUtf8_def encode_def utf8_bytes_def scalar_def decode_def
        stripBOM_def replaceTrailingFFFD_def)
  from truncateUtf8_safe [OF w, of 6] e w show ?thesis
    by auto
qed

text \<open>
  C6 as stated fails where the string itself holds replacement characters: of two of them
  followed by a letter (seven bytes), cut at six bytes, one is removed and the other is
  the result, which so ends in a replacement character.
\<close>

theorem truncateUtf8_trailing_replacement_counterexample:
  "length (encode [0xFFFD, 0xFFFD, 0x62]) = 7
   \<and> truncateUtf8 (Some [0xFFFD, 0xFFFD, 0x62]) 6 = Some [0xFFFD]
   \<and> last [0xFFFD] = (0xFFFD::nat)"
  by (simp add: truncateUtf8_def encode_def utf8_bytes_def scalar_def decode_def stripBOM_def
      replaceTrailingFFFD_def)

text \<open>
  The display name of every entry of \<open>getActorInfos\<close> went through \<open>truncateUtf8\<close> with a
  budget of 64 bytes.
\<close>

lemma actorRows_profile:
  assumes "cur \<in> set (actorRows d dids incl)" and "snd cur = Some p"
  shows "p \<in> set (t_profile d)"
  using assms by (auto simp: actorRows_def leftJoin_def split: if_splits)

lemma getActorInfos_displayName:
  assumes "fst (getActorInfos sv dids requester opts) k = Some a"
    and "displayName a = Some dn"
    and "\<forall>p \<in> set (t_profile (db sv)). \<forall>t. pr_displayName p = Some t \<longrightarrow> wf_text t"
  shows "length (encode dn) \<le> 64"
proof -
  have ne: "\<not> length dids < 1"
    using assms(1) by (auto simp: getActorInfos_def)
  with assms(1) have "foldl
      (\<lambda>acc cur. acc(dh_did (fst cur) \<mapsto>
         actorInfo sv requester (skipLabels opts)
           (getLabelsForSubjects sv (if skipLabels opts then [] else dids))
           (getListMutes sv dids requester) cur))
      Map.empty (actorRows (db sv) dids (includeSoftDeleted opts)) k = Some a"
    by (simp add: getActorInfos_def Let_def)
  from foldl_upd_Some [OF this] obtain cur where
    cur: "cur \<in> set (actorRows (db sv) dids (includeSoftDeleted opts))"
      and a: "a = actorInfo sv requester (skipLabels opts)
           (getLabelsForSubjects sv (if skipLabels opts then [] else dids))
           (getListMutes sv dids requester) cur"
    by auto
  from assms(2) have t: "truncateUtf8 (case snd cur of None \<Rightarrow> None | Some p \<Rightarrow> pr_displayName p) 64
      = Some dn"
    unfolding a by (simp add: actorInfo_def Let_def orUndefined_def split: if_splits)
  then obtain p s where p: "snd cur = Some p" "pr_displayName p = Some s"
    by (auto simp: truncateUtf8_def split: option.splits)
  from actorRows_profile [OF cur p(1)] assms(3) p(2) have "wf_text s"
    by blast
  from truncateUtf8_result [OF this, of 64] t p show ?thesis
    by auto
qed

end
